theory Spec2Isabelle
  imports Complex_Main
begin

section \<open>JavaScript numbers\<close>

text \<open>
  The game computes with JavaScript numbers. A geometric quantity (a coordinate, a
  velocity, a quaternion component) is a \<open>jsnum\<close>: a finite value, one of the two
  infinities, or NaN. Finite values are reals: rounding and the sign of zero are not part
  of this type. Division by zero, the infinities and NaN follow IEEE 754, so that a
  quotient \<open>0/0\<close> is NaN and every comparison with NaN is false, as in the program.
\<close>

datatype jsnum = Fin real | PInf | NInf | NaN

fun inf_signed :: "real \<Rightarrow> jsnum" where
  "inf_signed s = (if s = 0 then NaN else if 0 < s then PInf else NInf)"

fun js_neg :: "jsnum \<Rightarrow> jsnum" where
  "js_neg (Fin a) = Fin (- a)"
| "js_neg PInf = NInf"
| "js_neg NInf = PInf"
| "js_neg NaN = NaN"

fun js_add :: "jsnum \<Rightarrow> jsnum \<Rightarrow> jsnum" where
  "js_add (Fin a) (Fin b) = Fin (a + b)"
| "js_add NaN _ = NaN"
| "js_add _ NaN = NaN"
| "js_add PInf NInf = NaN"
| "js_add NInf PInf = NaN"
| "js_add PInf _ = PInf"
| "js_add _ PInf = PInf"
| "js_add NInf _ = NInf"
| "js_add _ NInf = NInf"

definition js_sub :: "jsnum \<Rightarrow> jsnum \<Rightarrow> jsnum" where
  "js_sub a b = js_add a (js_neg b)"

fun js_mul :: "jsnum \<Rightarrow> jsnum \<Rightarrow> jsnum" where
  "js_mul (Fin a) (Fin b) = Fin (a * b)"
| "js_mul NaN _ = NaN"
| "js_mul _ NaN = NaN"
| "js_mul (Fin a) PInf = inf_signed a"
| "js_mul (Fin a) NInf = inf_signed (- a)"
| "js_mul PInf (Fin b) = inf_signed b"
| "js_mul NInf (Fin b) = inf_signed (- b)"
| "js_mul PInf PInf = PInf"
| "js_mul PInf NInf = NInf"
| "js_mul NInf PInf = NInf"
| "js_mul NInf NInf = PInf"

fun js_div :: "jsnum \<Rightarrow> jsnum \<Rightarrow> jsnum" where
  "js_div (Fin a) (Fin b) = (if b = 0 then inf_signed a else Fin (a / b))"
| "js_div NaN _ = NaN"
| "js_div _ NaN = NaN"
| "js_div (Fin a) PInf = Fin 0"
| "js_div (Fin a) NInf = Fin 0"
| "js_div PInf (Fin b) = (if 0 \<le> b then PInf else NInf)"
| "js_div NInf (Fin b) = (if 0 \<le> b then NInf else PInf)"
| "js_div PInf PInf = NaN"
| "js_div PInf NInf = NaN"
| "js_div NInf PInf = NaN"
| "js_div NInf NInf = NaN"

fun js_sqrt :: "jsnum \<Rightarrow> jsnum" where
  "js_sqrt (Fin a) = (if a < 0 then NaN else Fin (sqrt a))"
| "js_sqrt PInf = PInf"
| "js_sqrt NInf = NaN"
| "js_sqrt NaN = NaN"

text \<open>The comparison \<open>a < b\<close> of the language: false as soon as an operand is NaN.\<close>

fun js_lt :: "jsnum \<Rightarrow> jsnum \<Rightarrow> bool" where
  "js_lt (Fin a) (Fin b) = (a < b)"
| "js_lt NaN _ = False"
| "js_lt _ NaN = False"
| "js_lt _ NInf = False"
| "js_lt PInf _ = False"
| "js_lt NInf _ = True"
| "js_lt _ PInf = True"

fun js_le :: "jsnum \<Rightarrow> jsnum \<Rightarrow> bool" where
  "js_le (Fin a) (Fin b) = (a \<le> b)"
| "js_le NaN _ = False"
| "js_le _ NaN = False"
| "js_le NInf _ = True"
| "js_le _ PInf = True"
| "js_le _ NInf = False"
| "js_le PInf _ = False"

definition js_gt :: "jsnum \<Rightarrow> jsnum \<Rightarrow> bool" where
  "js_gt a b = js_lt b a"

definition js_ge :: "jsnum \<Rightarrow> jsnum \<Rightarrow> bool" where
  "js_ge a b = js_le b a"

section \<open>Vectors, quaternions and rigid bodies\<close>

record vec3 =
  vec_x :: jsnum
  vec_y :: jsnum
  vec_z :: jsnum

record quat =
  quat_x :: jsnum
  quat_y :: jsnum
  quat_z :: jsnum
  quat_w :: jsnum

definition Vec3 :: "jsnum \<Rightarrow> jsnum \<Rightarrow> jsnum \<Rightarrow> vec3" where
  "Vec3 a b c = \<lparr>vec_x = a, vec_y = b, vec_z = c\<rparr>"

definition Quaternion :: "jsnum \<Rightarrow> jsnum \<Rightarrow> jsnum \<Rightarrow> jsnum \<Rightarrow> quat" where
  "Quaternion a b c d = \<lparr>quat_x = a, quat_y = b, quat_z = c, quat_w = d\<rparr>"

text \<open>
  Modelled from the spec: \<open>Quaternion.vmult\<close> belongs to the physics library, which is
  not among the sources. It is the vector "rotated into world space by its current
  orientation" (section 4.1): the product \<open>q v q\<^sup>*\<close>, first \<open>q v\<close> and then the
  product with the conjugate.
\<close>

definition vmult :: "quat \<Rightarrow> vec3 \<Rightarrow> vec3" where
  "vmult q v =
     (let x = vec_x v; y = vec_y v; z = vec_z v;
          qx = quat_x q; qy = quat_y q; qz = quat_z q; qw = quat_w q;
          ix = js_sub (js_add (js_mul qw x) (js_mul qy z)) (js_mul qz y);
          iy = js_sub (js_add (js_mul qw y) (js_mul qz x)) (js_mul qx z);
          iz = js_sub (js_add (js_mul qw z) (js_mul qx y)) (js_mul qy x);
          iw = js_sub (js_sub (js_mul (js_neg qx) x) (js_mul qy y)) (js_mul qz z)
      in Vec3
        (js_sub (js_add (js_add (js_mul ix qw) (js_mul iw (js_neg qx))) (js_mul iy (js_neg qz)))
           (js_mul iz (js_neg qy)))
        (js_sub (js_add (js_add (js_mul iy qw) (js_mul iw (js_neg qy))) (js_mul iz (js_neg qx)))
           (js_mul ix (js_neg qz)))
        (js_sub (js_add (js_add (js_mul iz qw) (js_mul iw (js_neg qz))) (js_mul ix (js_neg qy)))
           (js_mul iy (js_neg qx))))"

datatype sleep_state = AWAKE | SLEEPY | SLEEPING

datatype body_type = DYNAMIC | STATIC | KINEMATIC

text \<open>
  A rigid body of the physics library, with the fields the game reads or writes.
  \<open>sleep\<close> and \<open>wakeUp\<close> are the library's; the model keeps their effect on the
  sleep state.
\<close>

record body =
  position :: vec3
  quaternion :: quat
  velocity :: vec3
  angularVelocity :: vec3
  mass :: jsnum
  btype :: body_type
  sleepState :: sleep_state

definition sleep :: "body \<Rightarrow> body" where
  "sleep b = b\<lparr>sleepState := SLEEPING\<rparr>"

definition wakeUp :: "body \<Rightarrow> body" where
  "wakeUp b = b\<lparr>sleepState := AWAKE\<rparr>"

section \<open>The can (can.ts)\<close>

definition CAN_TARGET_X :: jsnum where "CAN_TARGET_X = Fin 0"
definition CAN_TARGET_Z :: jsnum where "CAN_TARGET_Z = Fin 120"
definition CAN_HEIGHT :: jsnum where "CAN_HEIGHT = Fin 10"
definition CAN_HALF_HEIGHT :: jsnum where "CAN_HALF_HEIGHT = js_div CAN_HEIGHT (Fin 2)"
definition CAN_MASS :: jsnum where "CAN_MASS = Fin (15 / 100)"

record mesh =
  mesh_position :: vec3
  mesh_quaternion :: quat

record can =
  can_mesh :: mesh
  can_body :: body
  originalPosition :: vec3
  isKnockedDownState :: bool

text \<open>\<open>Can.update\<close>: the mesh follows the body unless the can is carried.\<close>

definition update :: "bool \<Rightarrow> can \<Rightarrow> can" where
  "update isCarried c =
     (if isCarried then c
      else c\<lparr>can_mesh :=
        \<lparr>mesh_position =
           Vec3 (vec_x (position (can_body c))) (vec_y (position (can_body c)))
             (vec_z (position (can_body c))),
         mesh_quaternion =
           Quaternion (quat_x (quaternion (can_body c))) (quat_y (quaternion (can_body c)))
             (quat_z (quaternion (can_body c))) (quat_w (quaternion (can_body c)))\<rparr>\<rparr>)"

text \<open>The constructor's result: the body asleep at its rest pose, the flag clear.\<close>

definition new_Can :: can where
  "new_Can =
     (let orig = Vec3 CAN_TARGET_X (js_add CAN_HALF_HEIGHT (Fin (1 / 10))) CAN_TARGET_Z;
          b = sleep \<lparr>position = orig, quaternion = Quaternion (Fin 0) (Fin 0) (Fin 0) (Fin 1),
                velocity = Vec3 (Fin 0) (Fin 0) (Fin 0),
                angularVelocity = Vec3 (Fin 0) (Fin 0) (Fin 0),
                mass = CAN_MASS, btype = DYNAMIC, sleepState = AWAKE\<rparr>
      in update False
           \<lparr>can_mesh = \<lparr>mesh_position = Vec3 (Fin 0) (Fin 0) (Fin 0),
                        mesh_quaternion = Quaternion (Fin 0) (Fin 0) (Fin 0) (Fin 1)\<rparr>,
            can_body = b, originalPosition = orig, isKnockedDownState = False\<rparr>)"

text \<open>The world-space up vector that \<open>checkState\<close> computes.\<close>

definition worldUp :: "can \<Rightarrow> vec3" where
  "worldUp c = vmult (quaternion (can_body c)) (Vec3 (Fin 0) (Fin 1) (Fin 0))"

text \<open>
  \<open>Can.checkState\<close> returns its result and the can, whose sticky flag it may have set.
\<close>

definition checkState :: "can \<Rightarrow> bool \<times> can" where
  "checkState c =
     (if isKnockedDownState c then (True, c)
      else
        (let isFallen = js_lt (vec_y (worldUp c)) (Fin (1 / 2))
         in if isFallen then (isFallen, c\<lparr>isKnockedDownState := True\<rparr>)
            else (isFallen, c)))"

text \<open>\<open>Can.reset\<close>.\<close>

definition reset :: "can \<Rightarrow> can" where
  "reset c =
     update False
       (c\<lparr>can_body :=
            sleep ((can_body c)\<lparr>position := originalPosition c,
                     quaternion := Quaternion (Fin 0) (Fin 0) (Fin 0) (Fin 1),
                     velocity := Vec3 (Fin 0) (Fin 0) (Fin 0),
                     angularVelocity := Vec3 (Fin 0) (Fin 0) (Fin 0)\<rparr>),
          isKnockedDownState := False\<rparr>)"

text \<open>The getter \<open>isKnockedDown\<close>.\<close>

definition isKnockedDown :: "can \<Rightarrow> bool" where
  "isKnockedDown c = isKnockedDownState c"

text \<open>
  A run of the can between two resets: before each call of \<open>checkState\<close> the physics
  engine has given the body some orientation. The results of the calls are collected.
\<close>

fun checkStates :: "quat list \<Rightarrow> can \<Rightarrow> bool list \<times> can" where
  "checkStates [] c = ([], c)"
| "checkStates (q # qs) c =
     (let (r, c1) = checkState (c\<lparr>can_body := (can_body c)\<lparr>quaternion := q\<rparr>\<rparr>);
          (rs, c2) = checkStates qs c1
      in (r # rs, c2))"

section \<open>The countdown's numbers\<close>

text \<open>
  The countdown subtracts the literal \<open>0.1\<close> from \<open>timerValue\<close> again and again, so
  its value depends on the rounding of binary64 arithmetic. It is therefore modelled
  exactly: \<open>Dbl m e\<close> is the finite binary64 number \<open>m * 2\<^sup>e\<close>. A difference of two such
  numbers is computed exactly on the common exponent and then rounded to 53 significant
  bits, ties to even, as IEEE 754 subtraction does (the countdown stays far from the
  overflow threshold, and a difference of binary64 numbers never needs a subnormal
  rounding).
\<close>

datatype dbl = Dbl int int

fun dbl_val :: "dbl \<Rightarrow> rat" where
  "dbl_val (Dbl m e) = (if 0 \<le> e then of_int m * 2 ^ nat e else of_int m / 2 ^ nat (- e))"

function bit_length :: "int \<Rightarrow> int" where
  "bit_length n = (if n \<le> 0 then 0 else 1 + bit_length (n div 2))"
  by pat_completeness auto
termination
  by (relation "measure nat") auto

declare bit_length.simps [simp del]

definition round53 :: "int \<Rightarrow> int \<Rightarrow> dbl" where
  "round53 d e =
     (let k = bit_length \<bar>d\<bar>
      in if k \<le> 53 then Dbl d e
         else
           (let s = k - 53;
                q = \<bar>d\<bar> div 2 ^ nat s;
                r = \<bar>d\<bar> mod 2 ^ nat s;
                h = 2 ^ nat (s - 1);
                m = (if r < h then q else if h < r then q + 1
                     else if even q then q else q + 1)
            in Dbl (sgn d * m) (e + s)))"

fun d_sub :: "dbl \<Rightarrow> dbl \<Rightarrow> dbl" where
  "d_sub (Dbl m1 e1) (Dbl m2 e2) =
     (let e = min e1 e2
      in round53 (m1 * 2 ^ nat (e1 - e) - m2 * 2 ^ nat (e2 - e)) e)"

fun d_lt :: "dbl \<Rightarrow> dbl \<Rightarrow> bool" where
  "d_lt (Dbl m1 e1) (Dbl m2 e2) =
     (let e = min e1 e2 in m1 * 2 ^ nat (e1 - e) < m2 * 2 ^ nat (e2 - e))"

fun d_le :: "dbl \<Rightarrow> dbl \<Rightarrow> bool" where
  "d_le (Dbl m1 e1) (Dbl m2 e2) =
     (let e = min e1 e2 in m1 * 2 ^ nat (e1 - e) \<le> m2 * 2 ^ nat (e2 - e))"

text \<open>\<open>Math.max\<close> on two finite numbers.\<close>

definition d_max :: "dbl \<Rightarrow> dbl \<Rightarrow> dbl" where
  "d_max a b = (if d_lt a b then b else a)"

text \<open>The literal \<open>0.1\<close>: the binary64 number nearest to one tenth.\<close>

definition lit_0_1 :: dbl where
  "lit_0_1 = Dbl 3602879701896397 (- 55)"

definition TIMER_DURATION :: dbl where
  "TIMER_DURATION = Dbl 15 0"

section \<open>The game state (index.tsx)\<close>

text \<open>
  The globals of \<open>index.tsx\<close> form one record. The physics world holds references to
  bodies, so its body list is a list of body names; the two bodies the game mutates (the
  can's and the slipper's) are stored in the record. Rendering (the guide arch, the
  impact marker, materials, the styling of the page) is left out; of the page the record
  keeps the numbers and texts the timer, the score and the zone status show.
\<close>

datatype body_ref = GroundBody | WallBody nat | CanBody | SlipperBody

datatype parent = Camera | Scene | Detached

text \<open>
  The slipper's mesh is oriented by \<open>rotation.set\<close> (Euler angles) when it is put in the
  hand and by \<open>quaternion.set\<close> when it follows its body; the last write is kept.
\<close>

datatype orientation = Euler jsnum jsnum jsnum | Quat quat

record slipper_mesh =
  sm_parent :: parent
  sm_position :: vec3
  sm_orientation :: orientation

record game =
  player_position :: vec3
  controls_isLocked :: bool
  world_bodies :: "body_ref list"
  game_can :: can
  slipperMesh :: slipper_mesh
  slipperBody :: body
  isSlipperHeld :: bool
  isMouseDown :: bool
  hitCount :: nat
  isCanKnockedOverWaitingForReset :: bool
  isGameOver :: bool
  timerValue :: dbl
  timerInterval :: "nat option"
  intervals :: "nat list"
  nextIntervalId :: nat
  timerDisplay :: dbl
  timerWarning :: bool
  scoreDisplay :: nat
  statusZone :: string
  gameOverScreen :: bool
  finalScoreDisplay :: nat

definition THROW_STRENGTH :: jsnum where "THROW_STRENGTH = Fin 302"
definition SLIPPER_MASS :: jsnum where "SLIPPER_MASS = Fin 1"
definition HORIZONTAL_SPIN_STRENGTH :: jsnum where "HORIZONTAL_SPIN_STRENGTH = Fin 12"
definition FOUL_LINE_Z :: jsnum where "FOUL_LINE_Z = Fin (- 100)"
definition PICKUP_RADIUS :: jsnum where "PICKUP_RADIUS = Fin 60"
definition PLAYER_HEIGHT :: jsnum where "PLAYER_HEIGHT = Fin 30"

subsection \<open>The page's interval timers\<close>

text \<open>
  \<open>window.setInterval\<close> registers a repeating callback and returns its id, a positive
  integer not used before; \<open>clearInterval\<close> cancels the interval of that id, and does
  nothing for \<open>undefined\<close> or for an id that is not active. \<open>intervals\<close> lists the
  active ids; the only callback the game registers is the countdown's.
\<close>

definition clearInterval :: "nat option \<Rightarrow> game \<Rightarrow> game" where
  "clearInterval h g =
     (case h of None \<Rightarrow> g | Some i \<Rightarrow> g\<lparr>intervals := removeAll i (intervals g)\<rparr>)"

definition setInterval :: "game \<Rightarrow> game" where
  "setInterval g =
     g\<lparr>intervals := intervals g @ [nextIntervalId g],
       timerInterval := Some (nextIntervalId g),
       nextIntervalId := Suc (nextIntervalId g)\<rparr>"

text \<open>The truth value of the handle in \<open>if (timerInterval)\<close>.\<close>

definition truthy :: "nat option \<Rightarrow> bool" where
  "truthy h = (case h of None \<Rightarrow> False | Some i \<Rightarrow> i \<noteq> 0)"

subsection \<open>Timer and game over\<close>

definition stopTimer :: "game \<Rightarrow> game" where
  "stopTimer g = clearInterval (timerInterval g) g"

definition resetTimer :: "game \<Rightarrow> game" where
  "resetTimer g =
     g\<lparr>timerValue := TIMER_DURATION, timerDisplay := TIMER_DURATION, timerWarning := False\<rparr>"

definition triggerGameOver :: "game \<Rightarrow> game" where
  "triggerGameOver g =
     (if isGameOver g then g
      else
        (let g1 = stopTimer (g\<lparr>isGameOver := True\<rparr>)
         in g1\<lparr>controls_isLocked := False, finalScoreDisplay := hitCount g1,
               gameOverScreen := True\<rparr>))"

text \<open>The callback that \<open>startTimer\<close> registers: one tick of the countdown.\<close>

definition timerCallback :: "game \<Rightarrow> game" where
  "timerCallback g =
     (let v = d_sub (timerValue g) lit_0_1;
          g1 = g\<lparr>timerValue := v, timerDisplay := d_max (Dbl 0 0) v\<rparr>;
          g2 = (if d_lt v (Dbl 5 0) \<and> \<not> timerWarning g1 then g1\<lparr>timerWarning := True\<rparr>
                else g1)
      in if d_le v (Dbl 0 0) then triggerGameOver g2 else g2)"

definition startTimer :: "game \<Rightarrow> game" where
  "startTimer g =
     (let g1 = (if truthy (timerInterval g) then clearInterval (timerInterval g) g else g);
          g2 = g1\<lparr>timerValue := TIMER_DURATION, timerDisplay := TIMER_DURATION,
                  timerWarning := False\<rparr>
      in setInterval g2)"

subsection \<open>World membership\<close>

text \<open>
  Modelled from the spec: \<open>World.addBody\<close> and \<open>World.removeBody\<close> belong to the
  physics library, which is not among the sources. Section 6 lists them as the world
  membership add/remove on the world's body list, and section 5 asks that a membership
  change be idempotent: adding a body that is already in the world leaves the body list
  as it is, and otherwise appends the reference; removing deletes the reference, and
  leaves the list as it is when the body is not in the world.
\<close>

definition addBody :: "body_ref \<Rightarrow> game \<Rightarrow> game" where
  "addBody b g =
     (if b \<in> set (world_bodies g) then g else g\<lparr>world_bodies := world_bodies g @ [b]\<rparr>)"

definition removeBody :: "body_ref \<Rightarrow> game \<Rightarrow> game" where
  "removeBody b g = g\<lparr>world_bodies := remove1 b (world_bodies g)\<rparr>"

subsection \<open>Reset and restart\<close>

text \<open>The grip pose: the slipper's offset and rotation in the camera's frame.\<close>

definition GRIP_POSITION :: vec3 where
  "GRIP_POSITION = Vec3 (Fin 10) (Fin (- 10)) (Fin (- 20))"

definition GRIP_ROTATION :: orientation where
  "GRIP_ROTATION =
     Euler (js_mul (Fin pi) (Fin (1 / 10))) (js_mul (js_neg (Fin pi)) (Fin (1 / 10))) (Fin 0)"

definition resetGameComponents :: "bool \<Rightarrow> game \<Rightarrow> game" where
  "resetGameComponents fullReset g =
     (let g1 = resetTimer (stopTimer g);
          g2 = g1\<lparr>game_can := reset (game_can g1)\<rparr>;
          g3 = g2\<lparr>slipperBody := (slipperBody g2)\<lparr>mass := Fin 0, btype := STATIC\<rparr>\<rparr>;
          g4 = (if SlipperBody \<in> set (world_bodies g3) then removeBody SlipperBody g3 else g3);
          g5 = g4\<lparr>slipperMesh :=
                    \<lparr>sm_parent = Camera, sm_position = GRIP_POSITION,
                     sm_orientation = GRIP_ROTATION\<rparr>,
                  isSlipperHeld := True, isMouseDown := False,
                  isCanKnockedOverWaitingForReset := False\<rparr>
      in if fullReset then g5\<lparr>hitCount := 0\<rparr> else g5)"

definition restartGame :: "game \<Rightarrow> game" where
  "restartGame g =
     (let g1 = g\<lparr>isGameOver := False, gameOverScreen := False, hitCount := 0,
                 scoreDisplay := 0\<rparr>;
          g2 = resetGameComponents True (resetTimer g1)
      in g2\<lparr>controls_isLocked := True\<rparr>)"

subsection \<open>Mouse handlers\<close>

text \<open>
  What a mouse event brings from outside the game state: the button, the world pose of
  the slipper while it hangs on the camera (the rendering library computes it from the
  camera's transform), the camera's forward axis \<open>(0, 0, -1)\<close> rotated by the camera's
  quaternion, and the three results of \<open>Math.random\<close> that a throw draws.
\<close>

record mouse_input =
  button :: nat
  heldWorldPosition :: vec3
  heldWorldQuaternion :: quat
  throwDirection :: vec3
  random1 :: jsnum
  random2 :: jsnum
  random3 :: jsnum

text \<open>
  \<open>slipperMesh.getWorldPosition\<close>: the pose computed from the camera when the mesh is
  the camera's child, the mesh's own position otherwise (the scene sits at the origin).
\<close>

definition getWorldPosition :: "mouse_input \<Rightarrow> game \<Rightarrow> vec3" where
  "getWorldPosition inp g =
     (if sm_parent (slipperMesh g) = Camera then heldWorldPosition inp
      else sm_position (slipperMesh g))"

text \<open>\<open>Vector3.distanceTo\<close>: the Euclidean distance.\<close>

definition distanceTo :: "vec3 \<Rightarrow> vec3 \<Rightarrow> jsnum" where
  "distanceTo a b =
     (let dx = js_sub (vec_x a) (vec_x b);
          dy = js_sub (vec_y a) (vec_y b);
          dz = js_sub (vec_z a) (vec_z b)
      in js_sqrt (js_add (js_add (js_mul dx dx) (js_mul dy dy)) (js_mul dz dz)))"

definition onMouseDownHandler :: "mouse_input \<Rightarrow> game \<Rightarrow> game" where
  "onMouseDownHandler e g =
     (if controls_isLocked g \<and> button e = 0 then
        (if isSlipperHeld g then g\<lparr>isMouseDown := True\<rparr>
         else
           (let playerPos = player_position g;
                slipperPos = getWorldPosition e g;
                distance = distanceTo playerPos slipperPos
            in if js_le distance PICKUP_RADIUS then
                 (let g1 = g\<lparr>slipperBody := (slipperBody g)\<lparr>mass := Fin 0, btype := STATIC\<rparr>\<rparr>;
                      g2 = (if SlipperBody \<in> set (world_bodies g1)
                            then removeBody SlipperBody g1 else g1)
                  in g2\<lparr>slipperMesh :=
                          \<lparr>sm_parent = Camera, sm_position = GRIP_POSITION,
                           sm_orientation = GRIP_ROTATION\<rparr>,
                        isSlipperHeld := True\<rparr>)
               else g))
      else g)"

definition onMouseUpHandler :: "mouse_input \<Rightarrow> game \<Rightarrow> game" where
  "onMouseUpHandler e g =
     (if controls_isLocked g \<and> isSlipperHeld g \<and> isMouseDown g \<and> button e = 0 then
        (if js_gt (vec_z (player_position g)) FOUL_LINE_Z then g\<lparr>isMouseDown := False\<rparr>
         else
           (let g1 = g\<lparr>isSlipperHeld := False\<rparr>;
                worldPosition = getWorldPosition e g1;
                worldQuaternion = heldWorldQuaternion e;
                g2 = addBody SlipperBody
                       (g1\<lparr>slipperBody := (slipperBody g1)\<lparr>mass := SLIPPER_MASS, btype := DYNAMIC\<rparr>\<rparr>);
                launchSpeed = js_div THROW_STRENGTH SLIPPER_MASS;
                initialVelocity =
                  Vec3 (js_mul (vec_x (throwDirection e)) launchSpeed)
                    (js_mul (vec_y (throwDirection e)) launchSpeed)
                    (js_mul (vec_z (throwDirection e)) launchSpeed);
                b = (slipperBody g2)
                      \<lparr>position := Vec3 (vec_x worldPosition) (vec_y worldPosition)
                                     (vec_z worldPosition),
                        quaternion := Quaternion (quat_x worldQuaternion) (quat_y worldQuaternion)
                                        (quat_z worldQuaternion) (quat_w worldQuaternion),
                        velocity := Vec3 (vec_x initialVelocity) (vec_y initialVelocity)
                                      (vec_z initialVelocity),
                        angularVelocity :=
                          Vec3 (js_mul (js_sub (random1 e) (Fin (1 / 2))) (Fin 3))
                            (js_mul (if js_gt (random2 e) (Fin (1 / 2)) then Fin 1 else Fin (- 1))
                               HORIZONTAL_SPIN_STRENGTH)
                            (js_mul (js_sub (random3 e) (Fin (1 / 2))) (Fin 3))\<rparr>;
                g3 = g2\<lparr>slipperBody := wakeUp b\<rparr>
            in g3\<lparr>slipperMesh := (slipperMesh g3)\<lparr>sm_parent := Scene\<rparr>,
                  isMouseDown := False\<rparr>))
      else g\<lparr>isMouseDown := False\<rparr>)"

subsection \<open>The frame loop\<close>

definition checkCanState :: "game \<Rightarrow> game" where
  "checkCanState g =
     (if isCanKnockedOverWaitingForReset g \<or> isGameOver g then g
      else
        (let wasKnockedDown = isKnockedDown (game_can g);
             (isNowKnockedDown, c) = checkState (game_can g);
             g1 = g\<lparr>game_can := c\<rparr>
         in if isNowKnockedDown \<and> \<not> wasKnockedDown
            then startTimer (g1\<lparr>isCanKnockedOverWaitingForReset := True\<rparr>)
            else g1))"

text \<open>
  What one frame brings from outside the game state: where the movement code (keys,
  friction, gravity, the clamp to the field) has put the player, and the bodies as the
  physics step leaves them.
\<close>

record frame =
  movedPlayer :: vec3
  steppedCan :: body
  steppedSlipper :: body

text \<open>
  The first part of \<open>animate\<close>, up to the call of \<open>checkCanState\<close>. The player moves
  only while the pointer is locked; the physics step moves the bodies that are in the
  world; then the meshes follow their bodies.
\<close>

definition stepWorld :: "frame \<Rightarrow> game \<Rightarrow> game" where
  "stepWorld fr g =
     (let g1 = (if controls_isLocked g then g\<lparr>player_position := movedPlayer fr\<rparr> else g);
          g2 = g1\<lparr>game_can :=
                 (if CanBody \<in> set (world_bodies g1)
                  then (game_can g1)\<lparr>can_body := steppedCan fr\<rparr> else game_can g1),
                 slipperBody :=
                 (if SlipperBody \<in> set (world_bodies g1)
                  then steppedSlipper fr else slipperBody g1)\<rparr>;
          g3 = g2\<lparr>game_can := update False (game_can g2)\<rparr>
      in if \<not> isSlipperHeld g3
         then g3\<lparr>slipperMesh := (slipperMesh g3)
                \<lparr>sm_position :=
                   Vec3 (vec_x (position (slipperBody g3))) (vec_y (position (slipperBody g3)))
                     (vec_z (position (slipperBody g3))),
                 sm_orientation :=
                   Quat (Quaternion (quat_x (quaternion (slipperBody g3)))
                     (quat_y (quaternion (slipperBody g3)))
                     (quat_z (quaternion (slipperBody g3)))
                     (quat_w (quaternion (slipperBody g3))))\<rparr>\<rparr>
         else g3)"

text \<open>The last part: the throwing zone and the can reset (lines 783 to 804).\<close>

definition zoneCheck :: "game \<Rightarrow> game" where
  "zoneCheck g =
     (if controls_isLocked g then
        (let playerZ = vec_z (player_position g);
             isBehindLine = js_lt playerZ FOUL_LINE_Z;
             g1 = g\<lparr>statusZone := (if isBehindLine then ''Zone: IN'' else ''Zone: OUT'')\<rparr>
         in if isCanKnockedOverWaitingForReset g1 \<and> isSlipperHeld g1 \<and> isBehindLine then
              (let g2 = g1\<lparr>hitCount := Suc (hitCount g1)\<rparr>;
                   g3 = g2\<lparr>scoreDisplay := hitCount g2\<rparr>;
                   g4 = resetTimer (stopTimer g3);
                   g5 = g4\<lparr>game_can := reset (game_can g4)\<rparr>
               in g5\<lparr>isCanKnockedOverWaitingForReset := False\<rparr>)
            else g1)
      else g)"

definition animate :: "frame \<Rightarrow> game \<Rightarrow> game" where
  "animate fr g =
     (if isGameOver g then g else zoneCheck (checkCanState (stepWorld fr g)))"

subsection \<open>The session\<close>

text \<open>The state that \<open>init\<close> leaves: the world built, the slipper in the hand.\<close>

definition init :: game where
  "init =
     (let g = \<lparr>player_position = Vec3 (Fin 0) PLAYER_HEIGHT (Fin (- 180)),
               controls_isLocked = False,
               world_bodies = [GroundBody, WallBody 0, WallBody 1, WallBody 2, WallBody 3, CanBody],
               game_can = new_Can,
               slipperMesh = \<lparr>sm_parent = Detached, sm_position = Vec3 (Fin 0) (Fin 0) (Fin 0),
                              sm_orientation = Euler (js_div (js_neg (Fin pi)) (Fin 2)) (Fin 0) (Fin 0)\<rparr>,
               slipperBody = \<lparr>position = Vec3 (Fin 0) (Fin 0) (Fin 0),
                              quaternion = Quaternion (Fin 0) (Fin 0) (Fin 0) (Fin 1),
                              velocity = Vec3 (Fin 0) (Fin 0) (Fin 0),
                              angularVelocity = Vec3 (Fin 0) (Fin 0) (Fin 0),
                              mass = SLIPPER_MASS, btype = DYNAMIC, sleepState = AWAKE\<rparr>,
               isSlipperHeld = True, isMouseDown = False, hitCount = 0,
               isCanKnockedOverWaitingForReset = False, isGameOver = False,
               timerValue = Dbl 15 0, timerInterval = None, intervals = [],
               nextIntervalId = 1, timerDisplay = Dbl 15 0, timerWarning = False,
               scoreDisplay = 0, statusZone = [], gameOverScreen = False,
               finalScoreDisplay = 0\<rparr>;
          g1 = resetGameComponents True g
      in g1\<lparr>scoreDisplay := hitCount g1\<rparr>)"

text \<open>
  The events of a session: a frame, a firing of the interval with a given id, the two
  mouse events, the play-again button, and the browser granting or releasing the pointer
  lock. A firing of an id that is not active does nothing.
\<close>

datatype event =
  Frame frame
  | IntervalFire nat
  | MouseDown mouse_input
  | MouseUp mouse_input
  | PlayAgain
  | PointerLock
  | PointerUnlock

fun step :: "game \<Rightarrow> event \<Rightarrow> game" where
  "step g (Frame fr) = animate fr g"
| "step g (IntervalFire i) = (if i \<in> set (intervals g) then timerCallback g else g)"
| "step g (MouseDown e) = onMouseDownHandler e g"
| "step g (MouseUp e) = onMouseUpHandler e g"
| "step g PlayAgain = restartGame g"
| "step g PointerLock = g\<lparr>controls_isLocked := True\<rparr>"
| "step g PointerUnlock = g\<lparr>controls_isLocked := False\<rparr>"

definition run :: "event list \<Rightarrow> game" where
  "run evs = foldl step init evs"

text \<open>The round phase of the specification, read off the two flags.\<close>

datatype phase = Idle | AwaitingReset | Expired

definition phase_of :: "game \<Rightarrow> phase" where
  "phase_of g =
     (if isGameOver g then Expired
      else if isCanKnockedOverWaitingForReset g then AwaitingReset else Idle)"

definition timerRunning :: "game \<Rightarrow> bool" where
  "timerRunning g = (intervals g \<noteq> [])"

text \<open>
  The value of the countdown after \<open>n\<close> ticks that did not end the game: \<open>None\<close> as soon
  as a tick finds the value at or below zero.
\<close>

fun ticks :: "nat \<Rightarrow> dbl \<Rightarrow> dbl option" where
  "ticks 0 v = Some v"
| "ticks (Suc n) v =
     (let v' = d_sub v lit_0_1 in if d_le v' (Dbl 0 0) then None else ticks n v')"

text \<open>
  What holds of every state of a session: the active intervals are the countdown's one
  handle while the round awaits its reset and none otherwise; no body is in the world
  twice; a held slipper's body is not in the world; the slipper's mesh hangs on the
  camera exactly while the slipper is held; the can's sticky flag is the flag of the
  round.
\<close>

definition session_inv :: "game \<Rightarrow> bool" where
  "session_inv g =
     (map Some (intervals g) =
        (if isCanKnockedOverWaitingForReset g \<and> \<not> isGameOver g then [timerInterval g] else [])
      \<and> distinct (world_bodies g)
      \<and> (isSlipperHeld g \<longrightarrow> SlipperBody \<notin> set (world_bodies g))
      \<and> (sm_parent (slipperMesh g) = Camera) = isSlipperHeld g
      \<and> isKnockedDownState (game_can g) = isCanKnockedOverWaitingForReset g)"

section \<open>The impact point (index.tsx)\<close>

text \<open>
  \<open>findImpactPoint\<close>: the loop over \<open>i = 1 .. length - 1\<close> looks at the pairs of
  neighbours in order and returns at the first pair that passes the guard; \<open>null\<close> is
  \<open>None\<close>.
\<close>

definition interpolate :: "vec3 \<Rightarrow> vec3 \<Rightarrow> jsnum \<Rightarrow> vec3" where
  "interpolate prevPoint currentPoint groundLevel =
     (let t = js_div (js_sub groundLevel (vec_y prevPoint))
                (js_sub (vec_y currentPoint) (vec_y prevPoint))
      in Vec3 (js_add (vec_x prevPoint) (js_mul t (js_sub (vec_x currentPoint) (vec_x prevPoint))))
           groundLevel
           (js_add (vec_z prevPoint) (js_mul t (js_sub (vec_z currentPoint) (vec_z prevPoint)))))"

fun findImpactPoint :: "vec3 list \<Rightarrow> jsnum \<Rightarrow> vec3 option" where
  "findImpactPoint (prevPoint # currentPoint # points) groundLevel =
     (if js_ge (vec_y prevPoint) groundLevel \<and> js_le (vec_y currentPoint) groundLevel
      then Some (interpolate prevPoint currentPoint groundLevel)
      else findImpactPoint (currentPoint # points) groundLevel)"
| "findImpactPoint _ groundLevel = None"

text \<open>The guard of the loop: the earlier point at or above the level, the later at or below.\<close>

definition brackets :: "jsnum \<Rightarrow> vec3 \<Rightarrow> vec3 \<Rightarrow> bool" where
  "brackets g a b = (js_ge (vec_y a) g \<and> js_le (vec_y b) g)"

text \<open>
  The specification's wording of a crossing, for comparison with the guard: the
  difference of height and target height changes its sign between the two points.
\<close>

definition spec_sign_change :: "jsnum \<Rightarrow> vec3 \<Rightarrow> vec3 \<Rightarrow> bool" where
  "spec_sign_change g a b =
     ((js_lt (js_sub (vec_y a) g) (Fin 0) \<and> js_gt (js_sub (vec_y b) g) (Fin 0))
      \<or> (js_gt (js_sub (vec_y a) g) (Fin 0) \<and> js_lt (js_sub (vec_y b) g) (Fin 0)))"

section \<open>Sample states and sessions\<close>

text \<open>
  Concrete inputs at which the theorems below are evaluated: a can tipped over by half a
  turn about the x axis, bodies as a physics step may leave them, a mouse event, frames
  that put the player at a given z, and short sessions built from them.
\<close>

definition tippedCan :: can where
  "tippedCan =
     new_Can\<lparr>can_body :=
       (can_body new_Can)\<lparr>quaternion := Quaternion (Fin 1) (Fin 0) (Fin 0) (Fin 0)\<rparr>\<rparr>"

definition sampleInput :: mouse_input where
  "sampleInput =
     \<lparr>button = 0,
      heldWorldPosition = Vec3 (Fin (- 10)) (Fin 20) (Fin (- 160)),
      heldWorldQuaternion = Quaternion (Fin 0) (Fin 1) (Fin 0) (Fin 0),
      throwDirection = Vec3 (Fin 0) (Fin 0) (Fin 1),
      random1 = Fin (1 / 4), random2 = Fin (3 / 4), random3 = Fin (1 / 2)\<rparr>"

definition uprightBody :: body where
  "uprightBody = can_body new_Can"

definition fallenBody :: body where
  "fallenBody =
     \<lparr>position = Vec3 (Fin 0) (Fin 4) (Fin 125),
      quaternion = Quaternion (Fin 1) (Fin 0) (Fin 0) (Fin 0),
      velocity = Vec3 (Fin 0) (Fin 0) (Fin 0),
      angularVelocity = Vec3 (Fin 0) (Fin 0) (Fin 0),
      mass = CAN_MASS, btype = DYNAMIC, sleepState = AWAKE\<rparr>"

definition flyingSlipper :: body where
  "flyingSlipper =
     \<lparr>position = Vec3 (Fin (- 12)) (Fin 21) (Fin (- 160)),
      quaternion = Quaternion (Fin 0) (Fin 1) (Fin 0) (Fin 0),
      velocity = Vec3 (Fin 0) (Fin (- 1)) (Fin 302),
      angularVelocity = Vec3 (Fin (- 3 / 4)) (Fin 12) (Fin 0),
      mass = SLIPPER_MASS, btype = DYNAMIC, sleepState = AWAKE\<rparr>"

definition restingSlipper :: body where
  "restingSlipper =
     \<lparr>position = Vec3 (Fin 0) (Fin (3 / 2)) (Fin 138),
      quaternion = Quaternion (Fin 0) (Fin 0) (Fin 0) (Fin 1),
      velocity = Vec3 (Fin 0) (Fin 0) (Fin 0),
      angularVelocity = Vec3 (Fin 0) (Fin 0) (Fin 0),
      mass = SLIPPER_MASS, btype = DYNAMIC, sleepState = SLEEPING\<rparr>"

definition frameAt :: "real \<Rightarrow> body \<Rightarrow> body \<Rightarrow> frame" where
  "frameAt z c sl =
     \<lparr>movedPlayer = Vec3 (Fin 0) PLAYER_HEIGHT (Fin z), steppedCan = c, steppedSlipper = sl\<rparr>"

text \<open>
  The player locks the pointer, walks up to the foul line and presses the button.
\<close>

definition foulLineSession :: "event list" where
  "foulLineSession =
     [PointerLock, Frame (frameAt (- 100) uprightBody restingSlipper), MouseDown sampleInput]"

text \<open>The player throws; one frame later the slipper is still close by.\<close>

definition quickPickupSession :: "event list" where
  "quickPickupSession =
     [PointerLock, MouseDown sampleInput, MouseUp sampleInput,
      Frame (frameAt (- 180) uprightBody flyingSlipper)]"

text \<open>The player throws and stays behind; the slipper comes to rest far away.\<close>

definition farPickupSession :: "event list" where
  "farPickupSession =
     [PointerLock, MouseDown sampleInput, MouseUp sampleInput,
      Frame (frameAt (- 180) uprightBody restingSlipper)]"

text \<open>The player throws and the can falls.\<close>

definition knockdownSession :: "event list" where
  "knockdownSession =
     [PointerLock, MouseDown sampleInput, MouseUp sampleInput,
      Frame (frameAt (- 180) fallenBody restingSlipper)]"

text \<open>The player throws, the can falls, the player walks to the slipper and picks it up.\<close>

definition scoreSession :: "event list" where
  "scoreSession =
     [PointerLock, MouseDown sampleInput, MouseUp sampleInput,
      Frame (frameAt 100 fallenBody restingSlipper), MouseDown sampleInput]"

text \<open>
  The player throws, walks to the slipper, picks it up, walks back behind the line and
  releases the pointer lock; only then does the can fall.
\<close>

definition unlockedSession :: "event list" where
  "unlockedSession =
     [PointerLock, MouseDown sampleInput, MouseUp sampleInput,
      Frame (frameAt 100 uprightBody restingSlipper), MouseDown sampleInput,
      Frame (frameAt (- 150) uprightBody restingSlipper), PointerUnlock,
      Frame (frameAt (- 150) fallenBody restingSlipper)]"

text \<open>
  A state in which the held slipper's body is already in the world. No session reaches
  it; it serves to try the throw on a body that is already a member.
\<close>

definition duplicateState :: game where
  "duplicateState =
     (run [PointerLock, MouseDown sampleInput])
       \<lparr>world_bodies := world_bodies (run [PointerLock, MouseDown sampleInput]) @ [SlipperBody]\<rparr>"

section \<open>The can: classification and reset\<close>

lemma checkStates_flagged:
  "isKnockedDownState c \<Longrightarrow>
     list_all (\<lambda>r. r) (fst (checkStates qs c)) \<and> isKnockedDownState (snd (checkStates qs c))"
proof (induction qs arbitrary: c)
  case Nil
  then show ?case by simp
next
  case (Cons q qs)
  let ?c1 = "c\<lparr>can_body := (can_body c)\<lparr>quaternion := q\<rparr>\<rparr>"
  have flagged: "isKnockedDownState ?c1" using Cons.prems by simp
  then have step: "checkState ?c1 = (True, ?c1)" by (simp add: checkState_def)
  from Cons.IH [OF flagged] step show ?case
    by (simp add: split_beta)
qed

text \<open>
  C3. While the sticky flag is clear, \<open>checkState\<close> returns false when the vertical
  component of the rotated up axis is at least 0.5 and leaves the flag clear; it returns
  true and sets the flag when the component is below 0.5. Once the flag is set, every
  later call returns true whatever orientation the body has taken, and the flag stays
  set; \<open>reset\<close> clears it.
\<close>

theorem checkState_sticky:
  "(\<not> isKnockedDownState c \<and> js_ge (vec_y (worldUp c)) (Fin (1 / 2))
      \<longrightarrow> checkState c = (False, c))
   \<and> (\<not> isKnockedDownState c \<and> js_lt (vec_y (worldUp c)) (Fin (1 / 2))
      \<longrightarrow> fst (checkState c) \<and> isKnockedDownState (snd (checkState c)))
   \<and> (isKnockedDownState c
      \<longrightarrow> checkState c = (True, c)
        \<and> list_all (\<lambda>r. r) (fst (checkStates qs c))
        \<and> isKnockedDownState (snd (checkStates qs c)))
   \<and> \<not> isKnockedDownState (reset c)"
proof -
  have ge_not_lt: "js_ge a b \<Longrightarrow> \<not> js_lt a b" for a b
    by (cases a; cases b) (simp_all add: js_ge_def)
  show ?thesis
    using checkStates_flagged [of c qs] ge_not_lt [of "vec_y (worldUp c)" "Fin (1 / 2)"]
    by (auto simp: checkState_def reset_def update_def)
qed

text \<open>
  The theorem at the upright can, at the tipped can, and at the tipped can once flagged.
\<close>

lemmas can_eval = new_Can_def update_def sleep_def worldUp_def vmult_def Vec3_def
  Quaternion_def js_sub_def js_ge_def Let_def CAN_TARGET_X_def CAN_TARGET_Z_def
  CAN_HALF_HEIGHT_def CAN_HEIGHT_def CAN_MASS_def

theorem checkState_sticky_witness:
  "checkState new_Can = (False, new_Can)
   \<and> fst (checkState tippedCan) \<and> isKnockedDownState (snd (checkState tippedCan))
   \<and> checkState (tippedCan\<lparr>isKnockedDownState := True\<rparr>)
       = (True, tippedCan\<lparr>isKnockedDownState := True\<rparr>)
   \<and> list_all (\<lambda>r. r)
        (fst (checkStates [Quaternion (Fin 0) (Fin 0) (Fin 0) (Fin 1)]
           (tippedCan\<lparr>isKnockedDownState := True\<rparr>)))
   \<and> \<not> isKnockedDownState (reset (tippedCan\<lparr>isKnockedDownState := True\<rparr>))"
proof -
  have up: "\<not> isKnockedDownState new_Can \<and> js_ge (vec_y (worldUp new_Can)) (Fin (1 / 2))"
    by (simp add: can_eval)
  have down: "\<not> isKnockedDownState tippedCan \<and> js_lt (vec_y (worldUp tippedCan)) (Fin (1 / 2))"
    by (simp add: tippedCan_def can_eval)
  have flagged: "isKnockedDownState (tippedCan\<lparr>isKnockedDownState := True\<rparr>)"
    by simp
  from checkState_sticky [of new_Can "[]"] up
    checkState_sticky [of tippedCan "[]"] down
    checkState_sticky [of "tippedCan\<lparr>isKnockedDownState := True\<rparr>"
      "[Quaternion (Fin 0) (Fin 0) (Fin 0) (Fin 1)]"] flagged
  show ?thesis by blast
qed

text \<open>
  C9. \<open>reset\<close> is idempotent: a second call in a row leaves the whole can, and so its
  body's position, orientation, linear and angular velocity and sleep state and the
  fallen flag, as the first call left it.
\<close>

theorem reset_idempotent: "reset (reset c) = reset c"
  by (simp add: reset_def update_def sleep_def Vec3_def Quaternion_def)

section \<open>The impact point\<close>

text \<open>
  C10. For two neighbouring samples whose heights both equal the target height, the
  guard passes, the height difference is zero, the interpolation parameter is \<open>0/0\<close>,
  that is NaN, and the returned point has NaN for its x and z components.
\<close>

theorem findImpactPoint_flat_pair_NaN:
  "js_ge (Fin h) (Fin h) \<and> js_le (Fin h) (Fin h)
   \<and> js_sub (Fin h) (Fin h) = Fin 0
   \<and> js_div (js_sub (Fin h) (Fin h)) (js_sub (Fin h) (Fin h)) = NaN
   \<and> findImpactPoint [Vec3 (Fin x0) (Fin h) (Fin z0), Vec3 (Fin x1) (Fin h) (Fin z1)] (Fin h)
       = Some (Vec3 NaN (Fin h) NaN)"
  by (simp add: interpolate_def Vec3_def js_ge_def js_sub_def)

lemma findImpactPoint_None_iff:
  "findImpactPoint ps g = None \<longleftrightarrow> (\<forall>i. Suc i < length ps \<longrightarrow> \<not> brackets g (ps ! i) (ps ! Suc i))"
proof (induction ps g rule: findImpactPoint.induct)
  case (1 a b ps g)
  show ?case
  proof (cases "brackets g a b")
    case True
    then have "findImpactPoint (a # b # ps) g \<noteq> None" by (simp add: brackets_def)
    moreover have "\<not> (\<forall>i. Suc i < length (a # b # ps) \<longrightarrow>
        \<not> brackets g ((a # b # ps) ! i) ((a # b # ps) ! Suc i))"
      using True by (auto intro: exI [of _ 0])
    ultimately show ?thesis by blast
  next
    case False
    then have eq: "findImpactPoint (a # b # ps) g = findImpactPoint (b # ps) g"
      by (auto simp: brackets_def)
    have ih: "findImpactPoint (b # ps) g = None \<longleftrightarrow>
        (\<forall>i. Suc i < length (b # ps) \<longrightarrow> \<not> brackets g ((b # ps) ! i) ((b # ps) ! Suc i))"
      using 1 False by (auto simp: brackets_def)
    have "(\<forall>i. Suc i < length (a # b # ps) \<longrightarrow>
        \<not> brackets g ((a # b # ps) ! i) ((a # b # ps) ! Suc i)) \<longleftrightarrow>
        (\<forall>i. Suc i < length (b # ps) \<longrightarrow> \<not> brackets g ((b # ps) ! i) ((b # ps) ! Suc i))"
      (is "?L \<longleftrightarrow> ?R")
    proof
      assume l: ?L
      show ?R
      proof (intro allI impI)
        fix i assume "Suc i < length (b # ps)"
        then have "Suc (Suc i) < length (a # b # ps)" by simp
        from l [rule_format, OF this] show "\<not> brackets g ((b # ps) ! i) ((b # ps) ! Suc i)"
          by simp
      qed
    next
      assume r: ?R
      show ?L
      proof (intro allI impI)
        fix i assume len: "Suc i < length (a # b # ps)"
        show "\<not> brackets g ((a # b # ps) ! i) ((a # b # ps) ! Suc i)"
        proof (cases i)
          case 0
          then show ?thesis using False by simp
        next
          case (Suc j)
          then have "Suc j < length (b # ps)" using len by simp
          from r [rule_format, OF this] show ?thesis using Suc by simp
        qed
      qed
    qed
    with eq ih show ?thesis by simp
  qed
qed simp_all

lemma findImpactPoint_Some:
  "findImpactPoint ps g = Some p \<Longrightarrow>
     \<exists>i. Suc i < length ps \<and> brackets g (ps ! i) (ps ! Suc i)
       \<and> (\<forall>j<i. \<not> brackets g (ps ! j) (ps ! Suc j))
       \<and> p = interpolate (ps ! i) (ps ! Suc i) g"
proof (induction ps g rule: findImpactPoint.induct)
  case (1 a b ps g)
  show ?case
  proof (cases "brackets g a b")
    case True
    then have "p = interpolate a b g" using "1.prems" by (auto simp: brackets_def)
    with True show ?thesis by (intro exI [of _ 0]) simp
  next
    case False
    then have "findImpactPoint (b # ps) g = Some p"
      using "1.prems" by (auto simp: brackets_def)
    with 1 False obtain i where i: "Suc i < length (b # ps)"
        "brackets g ((b # ps) ! i) ((b # ps) ! Suc i)"
        "\<forall>j<i. \<not> brackets g ((b # ps) ! j) ((b # ps) ! Suc j)"
        "p = interpolate ((b # ps) ! i) ((b # ps) ! Suc i) g"
      by (auto simp: brackets_def)
    have "\<forall>j<Suc i. \<not> brackets g ((a # b # ps) ! j) ((a # b # ps) ! Suc j)"
    proof (intro allI impI)
      fix j assume "j < Suc i"
      then show "\<not> brackets g ((a # b # ps) ! j) ((a # b # ps) ! Suc j)"
        using False i(3) by (cases j) auto
    qed
    with i show ?thesis by (intro exI [of _ "Suc i"]) simp
  qed
qed simp_all

text \<open>
  C6, as stated, fails: between the heights 0 and 3 the difference to the target height
  1.5 changes its sign, and the resolver returns no impact.
\<close>

theorem findImpactPoint_misses_ascent:
  "spec_sign_change (Fin (3 / 2)) (Vec3 (Fin 0) (Fin 0) (Fin 0)) (Vec3 (Fin 0) (Fin 3) (Fin 0))
   \<and> findImpactPoint [Vec3 (Fin 0) (Fin 0) (Fin 0), Vec3 (Fin 0) (Fin 3) (Fin 0)] (Fin (3 / 2))
       = None"
  by (simp add: spec_sign_change_def Vec3_def js_sub_def js_gt_def js_ge_def)

text \<open>
  C6, amended. The resolver scans the pairs of neighbouring samples in order for a pair
  whose earlier height is at or above the target height and whose later height is at or
  below it. It returns the no-impact result exactly when no pair of neighbours is such a
  pair. Otherwise it returns, for the first such pair, the point that the interpolation
  formula gives, and the height of that point is the target height.
\<close>

theorem findImpactPoint_first_descent:
  "(findImpactPoint ps g = None \<longleftrightarrow>
      (\<forall>i. Suc i < length ps \<longrightarrow> \<not> brackets g (ps ! i) (ps ! Suc i)))
   \<and> (\<forall>p. findImpactPoint ps g = Some p \<longrightarrow>
        (\<exists>i. Suc i < length ps \<and> brackets g (ps ! i) (ps ! Suc i)
           \<and> (\<forall>j<i. \<not> brackets g (ps ! j) (ps ! Suc j))
           \<and> p = interpolate (ps ! i) (ps ! Suc i) g \<and> vec_y p = g))"
proof (intro conjI allI impI)
  show "findImpactPoint ps g = None \<longleftrightarrow>
      (\<forall>i. Suc i < length ps \<longrightarrow> \<not> brackets g (ps ! i) (ps ! Suc i))"
    by (rule findImpactPoint_None_iff)
next
  fix p assume "findImpactPoint ps g = Some p"
  from findImpactPoint_Some [OF this] obtain i where i: "Suc i < length ps"
      "brackets g (ps ! i) (ps ! Suc i)" "\<forall>j<i. \<not> brackets g (ps ! j) (ps ! Suc j)"
      "p = interpolate (ps ! i) (ps ! Suc i) g"
    by blast
  have "vec_y p = g" using i(4) by (simp add: interpolate_def Vec3_def Let_def)
  with i show "\<exists>i. Suc i < length ps \<and> brackets g (ps ! i) (ps ! Suc i)
           \<and> (\<forall>j<i. \<not> brackets g (ps ! j) (ps ! Suc j))
           \<and> p = interpolate (ps ! i) (ps ! Suc i) g \<and> vec_y p = g"
    by blast
qed

theorem findImpactPoint_first_descent_witness:
  "findImpactPoint [Vec3 (Fin 0) (Fin 10) (Fin 0), Vec3 (Fin 0) (Fin 5) (Fin (- 50)),
       Vec3 (Fin 0) (Fin 0) (Fin (- 100))] (Fin (3 / 2))
     = Some (Vec3 (Fin 0) (Fin (3 / 2)) (Fin (- 85)))
   \<and> (\<exists>i. Suc i < length [Vec3 (Fin 0) (Fin 10) (Fin 0), Vec3 (Fin 0) (Fin 5) (Fin (- 50)),
          Vec3 (Fin 0) (Fin 0) (Fin (- 100))]
        \<and> brackets (Fin (3 / 2))
            ([Vec3 (Fin 0) (Fin 10) (Fin 0), Vec3 (Fin 0) (Fin 5) (Fin (- 50)),
              Vec3 (Fin 0) (Fin 0) (Fin (- 100))] ! i)
            ([Vec3 (Fin 0) (Fin 10) (Fin 0), Vec3 (Fin 0) (Fin 5) (Fin (- 50)),
              Vec3 (Fin 0) (Fin 0) (Fin (- 100))] ! Suc i))
   \<and> findImpactPoint [Vec3 (Fin 0) (Fin 10) (Fin 0), Vec3 (Fin 0) (Fin 12) (Fin (- 50))]
       (Fin (3 / 2)) = None"
proof -
  let ?ps = "[Vec3 (Fin 0) (Fin 10) (Fin 0), Vec3 (Fin 0) (Fin 5) (Fin (- 50)),
       Vec3 (Fin 0) (Fin 0) (Fin (- 100))]"
  let ?qs = "[Vec3 (Fin 0) (Fin 10) (Fin 0), Vec3 (Fin 0) (Fin 12) (Fin (- 50))]"
  have some: "findImpactPoint ?ps (Fin (3 / 2)) = Some (Vec3 (Fin 0) (Fin (3 / 2)) (Fin (- 85)))"
    by (simp add: interpolate_def Vec3_def js_ge_def js_sub_def)
  have none: "\<forall>i. Suc i < length ?qs \<longrightarrow> \<not> brackets (Fin (3 / 2)) (?qs ! i) (?qs ! Suc i)"
    by (simp add: brackets_def Vec3_def js_ge_def)
  from findImpactPoint_first_descent [of ?ps "Fin (3 / 2)"] some
    findImpactPoint_first_descent [of ?qs "Fin (3 / 2)"] none
  show ?thesis by blast
qed

section \<open>The session invariant\<close>

lemma stopTimer_clears:
  "map Some (intervals g) = [timerInterval g] \<or> intervals g = [] \<Longrightarrow>
     intervals (stopTimer g) = []"
  by (auto simp: stopTimer_def clearInterval_def split: option.splits)

lemma stopTimer_fields [simp]:
  "isCanKnockedOverWaitingForReset (stopTimer g) = isCanKnockedOverWaitingForReset g"
  "isGameOver (stopTimer g) = isGameOver g"
  "world_bodies (stopTimer g) = world_bodies g"
  "isSlipperHeld (stopTimer g) = isSlipperHeld g"
  "game_can (stopTimer g) = game_can g"
  "timerInterval (stopTimer g) = timerInterval g"
  "hitCount (stopTimer g) = hitCount g"
  "controls_isLocked (stopTimer g) = controls_isLocked g"
  "slipperBody (stopTimer g) = slipperBody g"
  "slipperMesh (stopTimer g) = slipperMesh g"
  "timerValue (stopTimer g) = timerValue g"
  "player_position (stopTimer g) = player_position g"
  "isMouseDown (stopTimer g) = isMouseDown g"
  "scoreDisplay (stopTimer g) = scoreDisplay g"
  "timerDisplay (stopTimer g) = timerDisplay g"
  "timerWarning (stopTimer g) = timerWarning g"
  "statusZone (stopTimer g) = statusZone g"
  "gameOverScreen (stopTimer g) = gameOverScreen g"
  "finalScoreDisplay (stopTimer g) = finalScoreDisplay g"
  "nextIntervalId (stopTimer g) = nextIntervalId g"
  by (simp_all add: stopTimer_def clearInterval_def split: option.splits)

lemma inv_intervals:
  "session_inv g \<Longrightarrow> map Some (intervals g) = [timerInterval g] \<or> intervals g = []"
  by (auto simp: session_inv_def split: if_splits)

lemma reset_flag [simp]: "isKnockedDownState (reset c) = False"
  by (simp add: reset_def update_def)

lemma session_inv_init: "session_inv init"
  by (simp add: session_inv_def init_def resetGameComponents_def resetTimer_def Let_def
      removeBody_def stopTimer_def clearInterval_def)

lemma session_inv_resetGameComponents:
  "session_inv g \<Longrightarrow> session_inv (resetGameComponents b g)"
  using stopTimer_clears [OF inv_intervals, of g]
  by (auto simp: session_inv_def resetGameComponents_def resetTimer_def Let_def removeBody_def)

lemma session_inv_restartGame:
  "session_inv g \<Longrightarrow> session_inv (restartGame g)"
proof -
  assume inv: "session_inv g"
  let ?g1 = "resetTimer (g\<lparr>isGameOver := False, gameOverScreen := False, hitCount := 0,
                 scoreDisplay := 0\<rparr>)"
  have "map Some (intervals ?g1) = [timerInterval ?g1] \<or> intervals ?g1 = []"
    using inv_intervals [OF inv] by (simp add: resetTimer_def)
  from stopTimer_clears [OF this] inv show ?thesis
    by (auto simp: session_inv_def restartGame_def resetGameComponents_def resetTimer_def
        Let_def removeBody_def)
qed

lemma session_inv_triggerGameOver:
  "session_inv g \<Longrightarrow> session_inv (triggerGameOver g)"
proof -
  assume inv: "session_inv g"
  have "map Some (intervals (g\<lparr>isGameOver := True\<rparr>)) = [timerInterval (g\<lparr>isGameOver := True\<rparr>)]
      \<or> intervals (g\<lparr>isGameOver := True\<rparr>) = []"
    using inv_intervals [OF inv] by simp
  from stopTimer_clears [OF this] inv show ?thesis
    by (auto simp: session_inv_def triggerGameOver_def Let_def)
qed

lemma session_inv_display:
  "session_inv g \<Longrightarrow>
     session_inv (g\<lparr>timerValue := v, timerDisplay := d\<rparr>)
     \<and> session_inv (g\<lparr>timerValue := v, timerDisplay := d, timerWarning := w\<rparr>)"
  by (simp add: session_inv_def)

lemma session_inv_timerCallback:
  "session_inv g \<Longrightarrow> session_inv (timerCallback g)"
  using session_inv_display [of g]
  by (auto simp: timerCallback_def Let_def intro: session_inv_triggerGameOver)

lemma session_inv_checkCanState:
  "session_inv g \<Longrightarrow> session_inv (checkCanState g)"
  by (auto simp: session_inv_def checkCanState_def checkState_def isKnockedDown_def
      startTimer_def setInterval_def clearInterval_def truthy_def Let_def
      split: option.splits if_splits)

lemma update_flag [simp]: "isKnockedDownState (update b c) = isKnockedDownState c"
  by (simp add: update_def)

lemma session_inv_stepWorld:
  "session_inv g \<Longrightarrow> session_inv (stepWorld fr g)"
  by (auto simp: session_inv_def stepWorld_def Let_def)

lemma session_inv_zoneCheck:
  "session_inv g \<Longrightarrow> session_inv (zoneCheck g)"
proof -
  assume inv: "session_inv g"
  let ?g3 = "\<lambda>z. g\<lparr>statusZone := z, hitCount := Suc (hitCount g), scoreDisplay := Suc (hitCount g)\<rparr>"
  have "map Some (intervals (?g3 z)) = [timerInterval (?g3 z)] \<or> intervals (?g3 z) = []" for z
    using inv_intervals [OF inv] by simp
  from stopTimer_clears [OF this] inv show ?thesis
    by (auto simp: session_inv_def zoneCheck_def resetTimer_def Let_def)
qed

lemma session_inv_animate:
  "session_inv g \<Longrightarrow> session_inv (animate fr g)"
  by (simp add: animate_def session_inv_zoneCheck session_inv_checkCanState session_inv_stepWorld)

lemma session_inv_onMouseDownHandler:
  "session_inv g \<Longrightarrow> session_inv (onMouseDownHandler e g)"
  by (auto simp: session_inv_def onMouseDownHandler_def removeBody_def Let_def)

lemma session_inv_onMouseUpHandler:
  "session_inv g \<Longrightarrow> session_inv (onMouseUpHandler e g)"
  by (auto simp: session_inv_def onMouseUpHandler_def addBody_def wakeUp_def Let_def)

lemma session_inv_step:
  "session_inv g \<Longrightarrow> session_inv (step g e)"
proof (cases e)
  case (Frame fr)
  assume "session_inv g"
  then show ?thesis using Frame by (simp add: session_inv_animate)
next
  case (IntervalFire i)
  assume "session_inv g"
  then show ?thesis using IntervalFire by (simp add: session_inv_timerCallback)
next
  case (MouseDown inp)
  assume "session_inv g"
  then show ?thesis using MouseDown by (simp add: session_inv_onMouseDownHandler)
next
  case (MouseUp inp)
  assume "session_inv g"
  then show ?thesis using MouseUp by (simp add: session_inv_onMouseUpHandler)
next
  case PlayAgain
  assume "session_inv g"
  then show ?thesis using PlayAgain by (simp add: session_inv_restartGame)
next
  case PointerLock
  assume "session_inv g"
  then show ?thesis using PointerLock by (simp add: session_inv_def)
next
  case PointerUnlock
  assume "session_inv g"
  then show ?thesis using PointerUnlock by (simp add: session_inv_def)
qed

lemma session_inv_foldl:
  "session_inv g \<Longrightarrow> session_inv (foldl step g evs)"
  by (induction evs arbitrary: g) (simp_all add: session_inv_step)

lemma session_inv_run: "session_inv (run evs)"
  by (simp add: run_def session_inv_foldl session_inv_init)

section \<open>The countdown's numbers are binary64 numbers\<close>

text \<open>
  The literal is the binary64 number nearest to one tenth: its significand has 53 bits
  and it lies within half a unit in the last place of 1/10. A subtraction first forms
  the exact difference; \<open>round53\<close> leaves a difference of at most 53 bits as it is and
  otherwise returns a 53-bit significand at most half a unit away from it, even when it
  is exactly half a unit away.
\<close>

lemma lit_0_1_nearest:
  "dbl_val lit_0_1 = dbl_val (Dbl 7205759403792794 (- 56))
   \<and> 2 ^ 52 \<le> (7205759403792794 :: int) \<and> (7205759403792794 :: int) < 2 ^ 53
   \<and> \<bar>dbl_val lit_0_1 - 1 / 10\<bar> < 1 / 2 ^ 57"
  by (simp add: lit_0_1_def)

lemma bit_length_bounds:
  "0 < n \<Longrightarrow> 2 ^ nat (bit_length n - 1) \<le> n \<and> n < 2 ^ nat (bit_length n) \<and> 0 < bit_length n"
proof (induction n rule: bit_length.induct)
  case (1 n)
  show ?case
  proof (cases "n = 1")
    case True
    then show ?thesis by (simp add: bit_length.simps)
  next
    case False
    with "1.prems" have h: "0 < n div 2" by simp
    from "1.IH" h "1.prems" have ih: "2 ^ nat (bit_length (n div 2) - 1) \<le> n div 2"
      "n div 2 < 2 ^ nat (bit_length (n div 2))" "0 < bit_length (n div 2)"
      by simp_all
    have bl: "bit_length n = 1 + bit_length (n div 2)"
      using "1.prems" by (subst bit_length.simps) simp
    have e1: "nat (bit_length n - 1) = Suc (nat (bit_length (n div 2) - 1))"
      using bl ih(3) by simp
    have e2: "nat (bit_length n) = Suc (nat (bit_length (n div 2)))"
      using bl ih(3) by simp
    have "2 * 2 ^ nat (bit_length (n div 2) - 1) \<le> n"
      using ih(1) by linarith
    moreover have "n < 2 * 2 ^ nat (bit_length (n div 2))"
      using ih(2) by linarith
    ultimately show ?thesis using e1 e2 bl ih(3) by simp
  qed
qed

lemma round53_exact: "bit_length \<bar>d\<bar> \<le> 53 \<Longrightarrow> round53 d e = Dbl d e"
  by (simp add: round53_def)

lemma round53_nearest:
  assumes "53 < bit_length \<bar>d\<bar>"
  shows "\<exists>m. round53 d e = Dbl (sgn d * m) (e + (bit_length \<bar>d\<bar> - 53))
    \<and> 2 * \<bar>m * 2 ^ nat (bit_length \<bar>d\<bar> - 53) - \<bar>d\<bar>\<bar> \<le> 2 ^ nat (bit_length \<bar>d\<bar> - 53)
    \<and> (2 * \<bar>m * 2 ^ nat (bit_length \<bar>d\<bar> - 53) - \<bar>d\<bar>\<bar> = 2 ^ nat (bit_length \<bar>d\<bar> - 53)
          \<longrightarrow> even m)
    \<and> 2 ^ 52 \<le> m \<and> m \<le> 2 ^ 53"
proof -
  define s where "s = nat (bit_length \<bar>d\<bar> - 53)"
  define P :: int where "P = 2 ^ s"
  define q where "q = \<bar>d\<bar> div P"
  define r where "r = \<bar>d\<bar> mod P"
  define h :: int where "h = 2 ^ (s - 1)"
  define m where "m = (if r < h then q else if h < r then q + 1
                     else if even q then q else q + 1)"
  have s1: "1 \<le> s" using assms by (simp add: s_def)
  then have hh: "2 * h = P" unfolding h_def P_def
    by (cases s) simp_all
  have Ppos: "0 < P" by (simp add: P_def)
  have dpos: "0 < \<bar>d\<bar>" using assms by (auto simp: bit_length.simps)
  have split: "\<bar>d\<bar> = q * P + r"
    unfolding q_def r_def by (rule div_mult_mod_eq [symmetric])
  have r0: "0 \<le> r" and r1: "r < P"
    using Ppos by (simp_all add: r_def)
  have sk: "bit_length \<bar>d\<bar> - 53 = int s" using assms by (simp add: s_def)
  have res: "round53 d e = Dbl (sgn d * m) (e + (bit_length \<bar>d\<bar> - 53))"
    unfolding round53_def Let_def using assms
    by (simp add: sk m_def q_def r_def h_def P_def)
  have diff: "m * P - \<bar>d\<bar> = (if m = q then - r else P - r)" and mq: "m = q \<or> m = q + 1"
    using split by (auto simp: m_def algebra_simps)
  have err: "2 * \<bar>m * P - \<bar>d\<bar>\<bar> \<le> P"
  proof (cases "r < h")
    case True
    then have "m = q" by (simp add: m_def)
    with diff True r0 hh show ?thesis by simp
  next
    case False
    note nlt = this
    show ?thesis
    proof (cases "h < r")
      case True
      then have "m = q + 1" using nlt by (simp add: m_def)
      with diff True r1 hh show ?thesis by simp
    next
      case False
      with nlt have "r = h" by simp
      with diff mq hh r0 show ?thesis by auto
    qed
  qed
  have tie: "2 * \<bar>m * P - \<bar>d\<bar>\<bar> = P \<longrightarrow> even m"
  proof
    assume t: "2 * \<bar>m * P - \<bar>d\<bar>\<bar> = P"
    have "r = h"
    proof (rule ccontr)
      assume ne: "r \<noteq> h"
      show False
      proof (cases "r < h")
        case True
        then have "m = q" by (simp add: m_def)
        with diff True r0 hh t show False by simp
      next
        case False
        with ne have g: "h < r" by simp
        then have "m = q + 1" using False by (simp add: m_def)
        with diff g r1 hh t show False by simp
      qed
    qed
    then show "even m" by (simp add: m_def)
  qed
  from bit_length_bounds [OF dpos]
  have lo: "2 ^ nat (bit_length \<bar>d\<bar> - 1) \<le> \<bar>d\<bar>" and hi: "\<bar>d\<bar> < 2 ^ nat (bit_length \<bar>d\<bar>)"
    by simp_all
  have k1: "nat (bit_length \<bar>d\<bar> - 1) = 52 + s" and k2: "nat (bit_length \<bar>d\<bar>) = 53 + s"
    using assms by (simp_all add: s_def)
  have lo': "2 ^ 52 * P \<le> \<bar>d\<bar>" using lo k1 by (simp add: power_add P_def)
  have hi': "\<bar>d\<bar> < 2 ^ 53 * P" using hi k2 by (simp add: power_add P_def)
  have qlo: "2 ^ 52 \<le> q"
  proof (rule ccontr)
    assume "\<not> 2 ^ 52 \<le> q"
    then have "q + 1 \<le> 2 ^ 52" by simp
    then have "(q + 1) * P \<le> 2 ^ 52 * P" using Ppos by (intro mult_right_mono) simp_all
    with lo' split r1 show False by (simp add: algebra_simps)
  qed
  have qhi: "q < 2 ^ 53"
  proof (rule ccontr)
    assume "\<not> q < 2 ^ 53"
    then have "2 ^ 53 \<le> q" by simp
    then have "2 ^ 53 * P \<le> q * P" using Ppos by (intro mult_right_mono) simp_all
    with hi' split r0 show False by (simp add: algebra_simps)
  qed
  have "2 ^ 52 \<le> m \<and> m \<le> 2 ^ 53" using qlo qhi mq by auto
  with res err tie show ?thesis unfolding s_def P_def by blast
qed

lemma dbl_val_powi: "dbl_val (Dbl k x) = of_int k * 2 powi x"
  by (simp add: power_int_def field_simps)

lemma dbl_val_shift:
  assumes "e' \<le> e"
  shows "dbl_val (Dbl (m * 2 ^ nat (e - e')) e') = dbl_val (Dbl m e)"
proof -
  have "(2 :: rat) powi e = 2 powi (e - e') * 2 powi e'"
    by (simp flip: power_int_add)
  moreover have "(2 :: rat) powi (e - e') = 2 ^ nat (e - e')"
    using assms by (simp add: power_int_def)
  ultimately have "(2 :: rat) powi e = 2 ^ nat (e - e') * 2 powi e'" by simp
  then show ?thesis
    unfolding dbl_val_powi by (simp only: of_int_mult of_int_power of_int_numeral mult.assoc)
qed

lemma d_sub_exact_difference:
  "dbl_val (Dbl (m1 * 2 ^ nat (e1 - min e1 e2) - m2 * 2 ^ nat (e2 - min e1 e2)) (min e1 e2))
     = dbl_val (Dbl m1 e1) - dbl_val (Dbl m2 e2)"
proof -
  have "dbl_val (Dbl (a - b) x) = dbl_val (Dbl a x) - dbl_val (Dbl b x)" for a b x
    unfolding dbl_val_powi by (simp add: algebra_simps)
  then show ?thesis
    by (simp only: dbl_val_shift [OF min.cobounded1] dbl_val_shift [OF min.cobounded2])
qed

section \<open>Evaluating sessions\<close>

lemmas game_eval = run_def init_def resetGameComponents_def resetTimer_def stopTimer_def
  clearInterval_def removeBody_def addBody_def onMouseDownHandler_def onMouseUpHandler_def
  animate_def stepWorld_def checkCanState_def zoneCheck_def checkState_def isKnockedDown_def
  startTimer_def setInterval_def truthy_def getWorldPosition_def distanceTo_def
  wakeUp_def phase_of_def timerRunning_def FOUL_LINE_Z_def PICKUP_RADIUS_def
  PLAYER_HEIGHT_def TIMER_DURATION_def reset_def
  sampleInput_def uprightBody_def fallenBody_def flyingSlipper_def frameAt_def
  new_Can_def update_def sleep_def worldUp_def vmult_def Vec3_def
  Quaternion_def js_sub_def js_ge_def js_gt_def Let_def CAN_TARGET_X_def CAN_TARGET_Z_def
  CAN_HALF_HEIGHT_def CAN_HEIGHT_def CAN_MASS_def SLIPPER_MASS_def THROW_STRENGTH_def
  HORIZONTAL_SPIN_STRENGTH_def GRIP_POSITION_def

lemmas sample_eval = foulLineSession_def quickPickupSession_def farPickupSession_def
  knockdownSession_def scoreSession_def unlockedSession_def restingSlipper_def

lemma sqrt_625: "sqrt 625 = 25"
  by (rule real_sqrt_unique) simp_all

lemma sqrt_9025_4: "sqrt (9025 / 4) = 95 / 2"
  by (rule real_sqrt_unique) (simp_all add: power2_eq_square)

lemma sqrt_le_60: "sqrt a \<le> 60 \<longleftrightarrow> a \<le> 3600"
proof -
  have "sqrt a \<le> sqrt 3600 \<longleftrightarrow> a \<le> 3600" by (rule real_sqrt_le_iff)
  moreover have "sqrt 3600 = 60" by (rule real_sqrt_unique) simp_all
  ultimately show ?thesis by simp
qed

lemma run_append: "run (evs @ evs') = foldl step (run evs) evs'"
  by (simp add: run_def)

section \<open>The countdown\<close>

lemma timer_fires:
  "intervals g = [i] \<Longrightarrow> \<not> isGameOver g \<Longrightarrow> ticks n (timerValue g) = Some v \<Longrightarrow>
     timerValue (foldl step g (replicate n (IntervalFire i))) = v
     \<and> intervals (foldl step g (replicate n (IntervalFire i))) = [i]
     \<and> \<not> isGameOver (foldl step g (replicate n (IntervalFire i)))
     \<and> isCanKnockedOverWaitingForReset (foldl step g (replicate n (IntervalFire i)))
         = isCanKnockedOverWaitingForReset g"
proof (induction n arbitrary: g)
  case 0
  then show ?case by simp
next
  case (Suc n)
  let ?v = "d_sub (timerValue g) lit_0_1"
  from Suc.prems(3) have pos: "\<not> d_le ?v (Dbl 0 0)" and rest: "ticks n ?v = Some v"
    by (auto simp: Let_def split: if_splits)
  let ?g = "step g (IntervalFire i)"
  have st: "timerValue ?g = ?v" "intervals ?g = [i]" "\<not> isGameOver ?g"
    "isCanKnockedOverWaitingForReset ?g = isCanKnockedOverWaitingForReset g"
    using Suc.prems(1,2) pos by (simp_all add: timerCallback_def Let_def)
  from Suc.IH [of ?g] st rest show ?case by simp
qed

lemma ticks_150: "ticks 150 (Dbl 15 0) = Some (Dbl 1317 (- 55))"
  by (simp add: eval_nat_numeral round53_def bit_length.simps Let_def lit_0_1_def)

lemma after_150_ticks:
  "timerValue (run (knockdownSession @ replicate 150 (IntervalFire 1))) = Dbl 1317 (- 55)"
  "intervals (run (knockdownSession @ replicate 150 (IntervalFire 1))) = [1]"
  "\<not> isGameOver (run (knockdownSession @ replicate 150 (IntervalFire 1)))"
  "isCanKnockedOverWaitingForReset (run (knockdownSession @ replicate 150 (IntervalFire 1)))"
proof -
  let ?g = "run knockdownSession"
  have start: "intervals ?g = [1]" "\<not> isGameOver ?g" "timerValue ?g = Dbl 15 0"
    "isCanKnockedOverWaitingForReset ?g"
    by (simp_all add: game_eval sample_eval)
  have "ticks 150 (timerValue ?g) = Some (Dbl 1317 (- 55))"
    using ticks_150 start(3) by simp
  from timer_fires [OF start(1,2) this] start(4)
  show "timerValue (run (knockdownSession @ replicate 150 (IntervalFire 1))) = Dbl 1317 (- 55)"
    "intervals (run (knockdownSession @ replicate 150 (IntervalFire 1))) = [1]"
    "\<not> isGameOver (run (knockdownSession @ replicate 150 (IntervalFire 1)))"
    "isCanKnockedOverWaitingForReset (run (knockdownSession @ replicate 150 (IntervalFire 1)))"
    by (simp_all add: run_append)
qed

text \<open>
  The number the timer text shows after a tick is never negative, and a tick that ends
  the game cancels the interval it came from.
\<close>

lemma display_never_negative: "\<not> d_lt (timerDisplay (timerCallback g)) (Dbl 0 0)"
proof -
  have "\<not> d_lt (d_max (Dbl 0 0) v) (Dbl 0 0)" for v
    by (cases v) (auto simp: d_max_def mult_less_0_iff zero_less_mult_iff)
  then show ?thesis
    by (simp add: timerCallback_def triggerGameOver_def Let_def)
qed

lemma expiry_stops_interval:
  "intervals g = [i] \<Longrightarrow> timerInterval g = Some i \<Longrightarrow> \<not> isGameOver g \<Longrightarrow>
     d_le (d_sub (timerValue g) lit_0_1) (Dbl 0 0) \<Longrightarrow>
     isGameOver (timerCallback g) \<and> intervals (timerCallback g) = []"
  by (simp add: timerCallback_def triggerGameOver_def stopTimer_def clearInterval_def Let_def)

text \<open>
  C4, at the session in which the can has just fallen and the countdown has started at
  15. After 150 ticks the countdown is not zero: its value is \<open>1317 / 2\<^sup>5\<^sup>5\<close>, about
  \<open>3.66e-14\<close>, the test \<open>timerValue <= 0\<close> fails, and the round still awaits its reset
  with the interval active. The game-over transition comes on tick 151.
\<close>

theorem countdown_overruns_150_ticks:
  "phase_of (run knockdownSession) = AwaitingReset
   \<and> timerValue (run knockdownSession) = Dbl 15 0
   \<and> timerValue (run (knockdownSession @ replicate 150 (IntervalFire 1))) = Dbl 1317 (- 55)
   \<and> dbl_val (timerValue (run (knockdownSession @ replicate 150 (IntervalFire 1))))
       = 1317 / 2 ^ 55
   \<and> \<not> d_le (timerValue (run (knockdownSession @ replicate 150 (IntervalFire 1)))) (Dbl 0 0)
   \<and> phase_of (run (knockdownSession @ replicate 150 (IntervalFire 1))) = AwaitingReset
   \<and> timerRunning (run (knockdownSession @ replicate 150 (IntervalFire 1)))
   \<and> phase_of (run (knockdownSession @ replicate 150 (IntervalFire 1) @ [IntervalFire 1]))
       = Expired"
proof -
  let ?g = "run knockdownSession"
  let ?h = "run (knockdownSession @ replicate 150 (IntervalFire 1))"
  have start: "\<not> isGameOver ?g" "timerValue ?g = Dbl 15 0"
    "isCanKnockedOverWaitingForReset ?g"
    by (simp_all add: game_eval sample_eval)
  note h = after_150_ticks
  have "isGameOver (step ?h (IntervalFire 1))"
    using h by (simp add: timerCallback_def triggerGameOver_def Let_def round53_def
        bit_length.simps lit_0_1_def)
  then have last: "isGameOver (run (knockdownSession @ replicate 150 (IntervalFire 1)
      @ [IntervalFire 1]))"
    by (simp add: run_def)
  show ?thesis
    using start h last
    by (simp add: phase_of_def timerRunning_def)
qed

section \<open>The zone check\<close>

lemma zoneCheck_scores:
  assumes "session_inv g" and "controls_isLocked g" and "isCanKnockedOverWaitingForReset g"
    and "isSlipperHeld g" and "js_lt (vec_z (player_position g)) FOUL_LINE_Z"
  shows "isCanKnockedOverWaitingForReset (zoneCheck g) = False"
    and "isGameOver (zoneCheck g) = isGameOver g"
    and "hitCount (zoneCheck g) = Suc (hitCount g)"
    and "scoreDisplay (zoneCheck g) = Suc (hitCount g)"
    and "intervals (zoneCheck g) = []"
    and "timerValue (zoneCheck g) = TIMER_DURATION"
    and "timerDisplay (zoneCheck g) = TIMER_DURATION"
    and "game_can (zoneCheck g) = reset (game_can g)"
proof -
  let ?g3 = "g\<lparr>statusZone := ''Zone: IN'', hitCount := Suc (hitCount g),
    scoreDisplay := Suc (hitCount g)\<rparr>"
  have "map Some (intervals ?g3) = [timerInterval ?g3] \<or> intervals ?g3 = []"
    using inv_intervals [OF assms(1)] by simp
  from stopTimer_clears [OF this] show "intervals (zoneCheck g) = []"
    using assms(2-5) by (simp add: zoneCheck_def resetTimer_def Let_def)
qed (use assms(2-5) in \<open>simp_all add: zoneCheck_def resetTimer_def Let_def\<close>)

lemma zoneCheck_idle:
  assumes "\<not> (controls_isLocked g \<and> isCanKnockedOverWaitingForReset g
    \<and> isSlipperHeld g \<and> js_lt (vec_z (player_position g)) FOUL_LINE_Z)"
  shows "zoneCheck g =
    (if controls_isLocked g
     then g\<lparr>statusZone := (if js_lt (vec_z (player_position g)) FOUL_LINE_Z
       then ''Zone: IN'' else ''Zone: OUT'')\<rparr>
     else g)"
  using assms by (auto simp: zoneCheck_def Let_def)

text \<open>
  C1, as stated, fails. In this session the round awaits its reset, the slipper is held
  and the player stands at z = -150, behind the foul line, but the pointer lock has been
  released: the frame neither scores nor resets the can, and the countdown runs on.
\<close>

theorem unlocked_round_is_not_scored:
  "phase_of (run unlockedSession) = AwaitingReset
   \<and> isSlipperHeld (run unlockedSession)
   \<and> js_lt (vec_z (player_position (run unlockedSession))) FOUL_LINE_Z
   \<and> phase_of (animate (frameAt (- 150) fallenBody restingSlipper) (run unlockedSession))
       = AwaitingReset
   \<and> hitCount (animate (frameAt (- 150) fallenBody restingSlipper) (run unlockedSession))
       = hitCount (run unlockedSession)
   \<and> timerRunning (animate (frameAt (- 150) fallenBody restingSlipper) (run unlockedSession))
   \<and> isKnockedDown (game_can (animate (frameAt (- 150) fallenBody restingSlipper)
         (run unlockedSession)))"
  by (simp add: game_eval sample_eval sqrt_9025_4)

text \<open>
  C1, amended. Take a frame of a session whose game is not over, and the state \<open>g\<close> at
  the frame's zone check (after movement, the physics step and \<open>checkCanState\<close>). If
  the pointer is locked, the round awaits its reset, the slipper is held and the player's
  z is below the foul line, the frame ends with the round idle, the score one higher,
  the countdown stopped and back at its full duration, and the can reset. If the pointer
  is not locked or one of the three conditions fails, the frame leaves the phase, the
  score, the countdown (running or not, and its value) and the can as they are at the
  zone check.
\<close>

theorem zone_reset_when_locked:
  assumes "\<not> isGameOver (run evs)" and "g = checkCanState (stepWorld fr (run evs))"
  shows "(controls_isLocked g \<and> phase_of g = AwaitingReset \<and> isSlipperHeld g
            \<and> js_lt (vec_z (player_position g)) FOUL_LINE_Z
          \<longrightarrow> phase_of (animate fr (run evs)) = Idle
            \<and> hitCount (animate fr (run evs)) = Suc (hitCount g)
            \<and> scoreDisplay (animate fr (run evs)) = Suc (hitCount g)
            \<and> \<not> timerRunning (animate fr (run evs))
            \<and> timerValue (animate fr (run evs)) = TIMER_DURATION
            \<and> timerDisplay (animate fr (run evs)) = TIMER_DURATION
            \<and> game_can (animate fr (run evs)) = reset (game_can g))
         \<and> (\<not> (controls_isLocked g \<and> phase_of g = AwaitingReset \<and> isSlipperHeld g
                \<and> js_lt (vec_z (player_position g)) FOUL_LINE_Z)
          \<longrightarrow> phase_of (animate fr (run evs)) = phase_of g
            \<and> hitCount (animate fr (run evs)) = hitCount g
            \<and> scoreDisplay (animate fr (run evs)) = scoreDisplay g
            \<and> timerRunning (animate fr (run evs)) = timerRunning g
            \<and> timerValue (animate fr (run evs)) = timerValue g
            \<and> game_can (animate fr (run evs)) = game_can g)"
proof -
  have inv: "session_inv g"
    unfolding assms(2)
    by (intro session_inv_checkCanState session_inv_stepWorld session_inv_run)
  have over: "\<not> isGameOver g"
    using assms(1) unfolding assms(2)
    by (auto simp: checkCanState_def stepWorld_def startTimer_def setInterval_def
        clearInterval_def checkState_def Let_def split: option.splits prod.splits)
  have tick: "animate fr (run evs) = zoneCheck g"
    using assms by (simp add: animate_def)
  have ph: "phase_of g = AwaitingReset \<longleftrightarrow> isCanKnockedOverWaitingForReset g"
    using over by (simp add: phase_of_def)
  show ?thesis
  proof (intro conjI impI)
    assume c: "controls_isLocked g \<and> phase_of g = AwaitingReset \<and> isSlipperHeld g
            \<and> js_lt (vec_z (player_position g)) FOUL_LINE_Z"
    then have c': "controls_isLocked g" "isCanKnockedOverWaitingForReset g" "isSlipperHeld g"
        "js_lt (vec_z (player_position g)) FOUL_LINE_Z"
      using ph by simp_all
    note z = zoneCheck_scores [OF inv c']
    show "phase_of (animate fr (run evs)) = Idle"
      using z(1,2) over by (simp add: tick phase_of_def)
    show "hitCount (animate fr (run evs)) = Suc (hitCount g)" by (simp add: tick z)
    show "scoreDisplay (animate fr (run evs)) = Suc (hitCount g)" by (simp add: tick z)
    show "\<not> timerRunning (animate fr (run evs))" by (simp add: tick z timerRunning_def)
    show "timerValue (animate fr (run evs)) = TIMER_DURATION" by (simp add: tick z)
    show "timerDisplay (animate fr (run evs)) = TIMER_DURATION" by (simp add: tick z)
    show "game_can (animate fr (run evs)) = reset (game_can g)" by (simp add: tick z)
  next
    assume "\<not> (controls_isLocked g \<and> phase_of g = AwaitingReset \<and> isSlipperHeld g
            \<and> js_lt (vec_z (player_position g)) FOUL_LINE_Z)"
    then have n: "\<not> (controls_isLocked g \<and> isCanKnockedOverWaitingForReset g
        \<and> isSlipperHeld g \<and> js_lt (vec_z (player_position g)) FOUL_LINE_Z)"
      using ph by simp
    note z = zoneCheck_idle [OF n]
    show "phase_of (animate fr (run evs)) = phase_of g" by (simp add: tick z phase_of_def)
    show "hitCount (animate fr (run evs)) = hitCount g" by (simp add: tick z)
    show "scoreDisplay (animate fr (run evs)) = scoreDisplay g" by (simp add: tick z)
    show "timerRunning (animate fr (run evs)) = timerRunning g"
      by (simp add: tick z timerRunning_def)
    show "timerValue (animate fr (run evs)) = timerValue g" by (simp add: tick z)
    show "game_can (animate fr (run evs)) = game_can g" by (simp add: tick z)
  qed
qed

text \<open>
  The theorem at a session that ends with the slipper picked up while the can lies
  fallen: a frame with the player at z = -150 scores, a frame with the player at z = -50
  does not.
\<close>

theorem zone_reset_when_locked_witness:
  "\<not> isGameOver (run scoreSession)
   \<and> phase_of (run scoreSession) = AwaitingReset
   \<and> hitCount (run scoreSession) = 0
   \<and> phase_of (animate (frameAt (- 150) fallenBody restingSlipper) (run scoreSession)) = Idle
   \<and> hitCount (animate (frameAt (- 150) fallenBody restingSlipper) (run scoreSession)) = 1
   \<and> \<not> timerRunning (animate (frameAt (- 150) fallenBody restingSlipper) (run scoreSession))
   \<and> timerValue (animate (frameAt (- 150) fallenBody restingSlipper) (run scoreSession))
       = TIMER_DURATION
   \<and> \<not> isKnockedDown (game_can (animate (frameAt (- 150) fallenBody restingSlipper)
         (run scoreSession)))
   \<and> phase_of (animate (frameAt (- 50) fallenBody restingSlipper) (run scoreSession))
       = AwaitingReset
   \<and> hitCount (animate (frameAt (- 50) fallenBody restingSlipper) (run scoreSession)) = 0
   \<and> timerRunning (animate (frameAt (- 50) fallenBody restingSlipper) (run scoreSession))"
proof -
  let ?g = "run scoreSession"
  let ?in = "frameAt (- 150) fallenBody restingSlipper"
  let ?out = "frameAt (- 50) fallenBody restingSlipper"
  have g: "\<not> isGameOver ?g" "phase_of ?g = AwaitingReset" "hitCount ?g = 0"
    by (simp_all add: game_eval sample_eval sqrt_9025_4)
  have a: "controls_isLocked (checkCanState (stepWorld ?in ?g))
      \<and> phase_of (checkCanState (stepWorld ?in ?g)) = AwaitingReset
      \<and> isSlipperHeld (checkCanState (stepWorld ?in ?g))
      \<and> js_lt (vec_z (player_position (checkCanState (stepWorld ?in ?g)))) FOUL_LINE_Z"
    "hitCount (checkCanState (stepWorld ?in ?g)) = 0"
    by (simp_all add: game_eval sample_eval sqrt_9025_4)
  have b: "\<not> (controls_isLocked (checkCanState (stepWorld ?out ?g))
      \<and> phase_of (checkCanState (stepWorld ?out ?g)) = AwaitingReset
      \<and> isSlipperHeld (checkCanState (stepWorld ?out ?g))
      \<and> js_lt (vec_z (player_position (checkCanState (stepWorld ?out ?g)))) FOUL_LINE_Z)"
    "phase_of (checkCanState (stepWorld ?out ?g)) = AwaitingReset"
    "hitCount (checkCanState (stepWorld ?out ?g)) = 0"
    "timerRunning (checkCanState (stepWorld ?out ?g))"
    by (simp_all add: game_eval sample_eval sqrt_9025_4)
  from zone_reset_when_locked [OF g(1) refl, of ?in] a
  have sc: "phase_of (animate ?in ?g) = Idle" "hitCount (animate ?in ?g) = 1"
    "\<not> timerRunning (animate ?in ?g)" "timerValue (animate ?in ?g) = TIMER_DURATION"
    "game_can (animate ?in ?g) = reset (game_can (checkCanState (stepWorld ?in ?g)))"
    by simp_all
  from zone_reset_when_locked [OF g(1) refl, of ?out] b
  have ns: "phase_of (animate ?out ?g) = AwaitingReset" "hitCount (animate ?out ?g) = 0"
    "timerRunning (animate ?out ?g)"
    by simp_all
  show ?thesis using g sc ns by (simp add: isKnockedDown_def)
qed

section \<open>Release and pickup\<close>

text \<open>
  C2, at the foul line itself. The player stands at z = -100, which is not in the zone
  (the zone status shows OUT), holds the slipper and has the button down. The release is
  not rejected: the slipper is thrown, its body is admitted to the world and given the
  launch velocity.
\<close>

theorem release_on_foul_line_throws:
  "controls_isLocked (run foulLineSession) \<and> isSlipperHeld (run foulLineSession)
   \<and> isMouseDown (run foulLineSession)
   \<and> vec_z (player_position (run foulLineSession)) = Fin (- 100)
   \<and> \<not> js_lt (vec_z (player_position (run foulLineSession))) FOUL_LINE_Z
   \<and> statusZone (run foulLineSession) = ''Zone: OUT''
   \<and> \<not> isSlipperHeld (onMouseUpHandler sampleInput (run foulLineSession))
   \<and> SlipperBody \<in> set (world_bodies (onMouseUpHandler sampleInput (run foulLineSession)))
   \<and> velocity (slipperBody (onMouseUpHandler sampleInput (run foulLineSession)))
       = Vec3 (Fin 0) (Fin 0) (Fin 302)"
  by (simp add: game_eval sample_eval)

text \<open>Beyond the line, at any z above -100, the release is swallowed.\<close>

lemma release_beyond_line_rejected:
  "js_gt (vec_z (player_position g)) FOUL_LINE_Z \<Longrightarrow>
     onMouseUpHandler e g = g\<lparr>isMouseDown := False\<rparr>"
  by (simp add: onMouseUpHandler_def)

text \<open>
  C7, as stated, fails: a pickup one frame after the throw leaves the body with the
  velocity it had in flight.
\<close>

theorem pickup_keeps_velocity:
  "\<not> isSlipperHeld (run quickPickupSession)
   \<and> isSlipperHeld (onMouseDownHandler sampleInput (run quickPickupSession))
   \<and> velocity (slipperBody (onMouseDownHandler sampleInput (run quickPickupSession)))
       = Vec3 (Fin 0) (Fin (- 1)) (Fin 302)
   \<and> velocity (slipperBody (onMouseDownHandler sampleInput (run quickPickupSession)))
       \<noteq> Vec3 (Fin 0) (Fin 0) (Fin 0)"
  by (simp add: game_eval sample_eval sqrt_625)

text \<open>
  C7, amended. In every state of a session, a pickup attempt (the left button pressed
  while the pointer is locked and the slipper is not held) succeeds exactly when the
  distance from the player to the slipper's position is at most 60. A successful pickup
  sets the body's mass to zero and its type to static, leaves the body out of the world,
  hangs the mesh on the camera at the grip offset and rotation and marks the slipper
  held; it leaves the body's linear and angular velocity as they were. A failed attempt
  changes nothing.
\<close>

theorem pickup_within_radius:
  assumes "g = run evs" and "controls_isLocked g" and "button e = 0" and "\<not> isSlipperHeld g"
  shows "(js_le (distanceTo (player_position g) (sm_position (slipperMesh g))) PICKUP_RADIUS
          \<longrightarrow> isSlipperHeld (onMouseDownHandler e g)
            \<and> mass (slipperBody (onMouseDownHandler e g)) = Fin 0
            \<and> btype (slipperBody (onMouseDownHandler e g)) = STATIC
            \<and> SlipperBody \<notin> set (world_bodies (onMouseDownHandler e g))
            \<and> slipperMesh (onMouseDownHandler e g)
                = \<lparr>sm_parent = Camera, sm_position = GRIP_POSITION,
                   sm_orientation = GRIP_ROTATION\<rparr>
            \<and> velocity (slipperBody (onMouseDownHandler e g)) = velocity (slipperBody g)
            \<and> angularVelocity (slipperBody (onMouseDownHandler e g))
                = angularVelocity (slipperBody g))
         \<and> (\<not> js_le (distanceTo (player_position g) (sm_position (slipperMesh g))) PICKUP_RADIUS
          \<longrightarrow> onMouseDownHandler e g = g)"
proof -
  have inv: "session_inv g" unfolding assms(1) by (rule session_inv_run)
  then have d: "distinct (world_bodies g)" and p: "sm_parent (slipperMesh g) \<noteq> Camera"
    using assms(4) by (simp_all add: session_inv_def)
  have wp: "getWorldPosition e g = sm_position (slipperMesh g)"
    using p by (simp add: getWorldPosition_def)
  show ?thesis
    using assms(2-4) d wp
    by (auto simp: onMouseDownHandler_def removeBody_def Let_def)
qed

text \<open>
  The theorem one frame after a throw (the slipper 25 units away) and after the slipper
  has come to rest far down the field.
\<close>

theorem pickup_within_radius_witness:
  "controls_isLocked (run quickPickupSession) \<and> \<not> isSlipperHeld (run quickPickupSession)
   \<and> distanceTo (player_position (run quickPickupSession))
        (sm_position (slipperMesh (run quickPickupSession))) = Fin 25
   \<and> isSlipperHeld (onMouseDownHandler sampleInput (run quickPickupSession))
   \<and> SlipperBody \<notin> set (world_bodies (onMouseDownHandler sampleInput (run quickPickupSession)))
   \<and> mass (slipperBody (onMouseDownHandler sampleInput (run quickPickupSession))) = Fin 0
   \<and> sm_parent (slipperMesh (onMouseDownHandler sampleInput (run quickPickupSession))) = Camera
   \<and> controls_isLocked (run farPickupSession) \<and> \<not> isSlipperHeld (run farPickupSession)
   \<and> \<not> js_le (distanceTo (player_position (run farPickupSession))
        (sm_position (slipperMesh (run farPickupSession)))) PICKUP_RADIUS
   \<and> onMouseDownHandler sampleInput (run farPickupSession) = run farPickupSession"
proof -
  let ?g = "run quickPickupSession"
  let ?f = "run farPickupSession"
  have g: "controls_isLocked ?g" "button sampleInput = 0" "\<not> isSlipperHeld ?g"
    "distanceTo (player_position ?g) (sm_position (slipperMesh ?g)) = Fin 25"
    by (simp_all add: game_eval sample_eval sqrt_625)
  have f: "controls_isLocked ?f" "\<not> isSlipperHeld ?f"
    "\<not> js_le (distanceTo (player_position ?f) (sm_position (slipperMesh ?f))) PICKUP_RADIUS"
    by (simp_all add: game_eval sample_eval sqrt_le_60)
  from pickup_within_radius [OF refl g(1,2,3)] g(4)
  have near: "isSlipperHeld (onMouseDownHandler sampleInput ?g)"
    "SlipperBody \<notin> set (world_bodies (onMouseDownHandler sampleInput ?g))"
    "mass (slipperBody (onMouseDownHandler sampleInput ?g)) = Fin 0"
    "sm_parent (slipperMesh (onMouseDownHandler sampleInput ?g)) = Camera"
    by (simp_all add: PICKUP_RADIUS_def)
  from pickup_within_radius [OF refl f(1) g(2) f(2)] f(3)
  have far: "onMouseDownHandler sampleInput ?f = ?f" by simp
  show ?thesis using g f near far by simp
qed

section \<open>World membership\<close>

text \<open>
  C8. Each path that changes the membership of the slipper's body leaves the world's
  body list unchanged when the membership it wants already holds: the throw when the
  body is already in the world (the world's \<open>addBody\<close> returns on a member), the pickup
  and the reset when the body is not in the world (both test \<open>includes\<close> before they
  remove). None of the three paths creates a duplicate: a body list without duplicates
  has none afterwards. When the change is needed, the throw appends the body. In every
  state of a session no body is in the world twice and a held slipper's body is not in
  the world.
\<close>

theorem membership_changes:
  "(SlipperBody \<in> set (world_bodies g)
      \<longrightarrow> world_bodies (onMouseUpHandler e g) = world_bodies g)
   \<and> (SlipperBody \<notin> set (world_bodies g)
      \<longrightarrow> world_bodies (onMouseDownHandler e g) = world_bodies g
        \<and> world_bodies (resetGameComponents b g) = world_bodies g)
   \<and> (distinct (world_bodies g)
      \<longrightarrow> distinct (world_bodies (onMouseUpHandler e g))
        \<and> distinct (world_bodies (onMouseDownHandler e g))
        \<and> distinct (world_bodies (resetGameComponents b g)))
   \<and> world_bodies (onMouseUpHandler e g)
       = (if controls_isLocked g \<and> isSlipperHeld g \<and> isMouseDown g \<and> button e = 0
             \<and> \<not> js_gt (vec_z (player_position g)) FOUL_LINE_Z
             \<and> SlipperBody \<notin> set (world_bodies g)
          then world_bodies g @ [SlipperBody] else world_bodies g)
   \<and> (isSlipperHeld (run evs) \<longrightarrow> SlipperBody \<notin> set (world_bodies (run evs)))
   \<and> distinct (world_bodies (run evs))"
proof -
  have throw: "world_bodies (onMouseUpHandler e g)
       = (if controls_isLocked g \<and> isSlipperHeld g \<and> isMouseDown g \<and> button e = 0
             \<and> \<not> js_gt (vec_z (player_position g)) FOUL_LINE_Z
             \<and> SlipperBody \<notin> set (world_bodies g)
          then world_bodies g @ [SlipperBody] else world_bodies g)"
    by (auto simp: onMouseUpHandler_def addBody_def wakeUp_def Let_def)
  have pickup: "world_bodies (onMouseDownHandler e g) = world_bodies g
      \<or> world_bodies (onMouseDownHandler e g) = remove1 SlipperBody (world_bodies g)"
    by (auto simp: onMouseDownHandler_def removeBody_def Let_def)
  have pickup_absent: "SlipperBody \<notin> set (world_bodies g)
      \<Longrightarrow> world_bodies (onMouseDownHandler e g) = world_bodies g"
    by (auto simp: onMouseDownHandler_def Let_def)
  have reset_eq: "world_bodies (resetGameComponents b g)
      = (if SlipperBody \<in> set (world_bodies g) then remove1 SlipperBody (world_bodies g)
         else world_bodies g)"
    by (auto simp: resetGameComponents_def resetTimer_def removeBody_def Let_def)
  have member: "SlipperBody \<in> set (world_bodies g)
      \<longrightarrow> world_bodies (onMouseUpHandler e g) = world_bodies g"
    using throw by simp
  have absent: "SlipperBody \<notin> set (world_bodies g)
      \<longrightarrow> world_bodies (onMouseDownHandler e g) = world_bodies g
        \<and> world_bodies (resetGameComponents b g) = world_bodies g"
    using pickup_absent reset_eq by simp
  have nodup: "distinct (world_bodies g)
      \<longrightarrow> distinct (world_bodies (onMouseUpHandler e g))
        \<and> distinct (world_bodies (onMouseDownHandler e g))
        \<and> distinct (world_bodies (resetGameComponents b g))"
  proof
    assume d: "distinct (world_bodies g)"
    have "distinct (world_bodies (onMouseUpHandler e g))"
      using d by (simp add: throw)
    moreover have "distinct (world_bodies (onMouseDownHandler e g))"
      using d pickup by (auto simp: distinct_remove1)
    moreover have "distinct (world_bodies (resetGameComponents b g))"
      using d by (simp add: reset_eq distinct_remove1)
    ultimately show "distinct (world_bodies (onMouseUpHandler e g))
        \<and> distinct (world_bodies (onMouseDownHandler e g))
        \<and> distinct (world_bodies (resetGameComponents b g))"
      by simp
  qed
  have inv: "session_inv (run evs)" by (rule session_inv_run)
  then have sess: "(isSlipperHeld (run evs) \<longrightarrow> SlipperBody \<notin> set (world_bodies (run evs)))
      \<and> distinct (world_bodies (run evs))"
    by (simp add: session_inv_def)
  from member absent nodup throw sess show ?thesis by blast
qed

text \<open>
  The theorem at the state whose body is already a member (the throw runs and leaves the
  body list alone), at the initial state (pickup and reset leave it alone), and just
  before a throw in a session (the throw appends the body once).
\<close>

theorem membership_changes_witness:
  "SlipperBody \<in> set (world_bodies duplicateState)
   \<and> isSlipperHeld duplicateState
   \<and> \<not> isSlipperHeld (onMouseUpHandler sampleInput duplicateState)
   \<and> world_bodies (onMouseUpHandler sampleInput duplicateState) = world_bodies duplicateState
   \<and> SlipperBody \<notin> set (world_bodies init)
   \<and> world_bodies (onMouseDownHandler sampleInput init) = world_bodies init
   \<and> world_bodies (resetGameComponents True init) = world_bodies init
   \<and> distinct (world_bodies (run [PointerLock, MouseDown sampleInput]))
   \<and> SlipperBody \<notin> set (world_bodies (run [PointerLock, MouseDown sampleInput]))
   \<and> world_bodies (onMouseUpHandler sampleInput (run [PointerLock, MouseDown sampleInput]))
       = world_bodies (run [PointerLock, MouseDown sampleInput]) @ [SlipperBody]
   \<and> distinct (world_bodies (onMouseUpHandler sampleInput
         (run [PointerLock, MouseDown sampleInput])))"
proof -
  let ?g = "run [PointerLock, MouseDown sampleInput]"
  have dup: "SlipperBody \<in> set (world_bodies duplicateState)" "isSlipperHeld duplicateState"
    "\<not> isSlipperHeld (onMouseUpHandler sampleInput duplicateState)"
    by (simp_all add: duplicateState_def game_eval)
  have i: "SlipperBody \<notin> set (world_bodies init)"
    by (simp add: game_eval)
  have h: "distinct (world_bodies ?g)" "SlipperBody \<notin> set (world_bodies ?g)"
    "controls_isLocked ?g \<and> isSlipperHeld ?g \<and> isMouseDown ?g
      \<and> button sampleInput = 0 \<and> \<not> js_gt (vec_z (player_position ?g)) FOUL_LINE_Z"
    by (simp_all add: game_eval)
  from membership_changes [of duplicateState sampleInput True "[]"] dup(1)
  have w1: "world_bodies (onMouseUpHandler sampleInput duplicateState)
      = world_bodies duplicateState"
    by simp
  from membership_changes [of init sampleInput True "[]"] i
  have w2: "world_bodies (onMouseDownHandler sampleInput init) = world_bodies init"
    "world_bodies (resetGameComponents True init) = world_bodies init"
    by simp_all
  from membership_changes [of ?g sampleInput True "[]"] h
  have w3: "world_bodies (onMouseUpHandler sampleInput ?g) = world_bodies ?g @ [SlipperBody]"
    "distinct (world_bodies (onMouseUpHandler sampleInput ?g))"
    by simp_all
  show ?thesis using dup i h(1,2) w1 w2 w3 by simp
qed

section \<open>The countdown runs exactly while the round awaits its reset\<close>

text \<open>
  C5. In every state of a session the countdown's interval is active if and only if the
  round phase is AwaitingReset, and at most one interval is active. In the state \<open>g\<close> in
  which a frame calls \<open>checkCanState\<close>, the countdown is started, at its full duration,
  exactly on the rising edge (the round idle, the can not flagged, the can now
  classified fallen); without the edge the call leaves the intervals, the countdown's
  value and the phase alone, and outside the idle phase it changes nothing, however the
  can lies. The countdown is stopped by the scoring zone check, by the tick that finds
  the value at or below zero (which ends the game), by \<open>resetGameComponents\<close> and by
  \<open>restartGame\<close>.
\<close>

theorem timer_runs_iff_awaiting_reset:
  assumes "g = stepWorld fr (run evs)"
  shows "(timerRunning (run evs) \<longleftrightarrow> phase_of (run evs) = AwaitingReset)
    \<and> length (intervals (run evs)) \<le> 1
    \<and> (phase_of g = Idle \<and> \<not> isKnockedDown (game_can g) \<and> fst (checkState (game_can g))
        \<longrightarrow> intervals (checkCanState g) = [nextIntervalId g]
          \<and> timerValue (checkCanState g) = TIMER_DURATION
          \<and> phase_of (checkCanState g) = AwaitingReset)
    \<and> (\<not> (phase_of g = Idle \<and> \<not> isKnockedDown (game_can g) \<and> fst (checkState (game_can g)))
        \<longrightarrow> intervals (checkCanState g) = intervals g
          \<and> timerValue (checkCanState g) = timerValue g
          \<and> phase_of (checkCanState g) = phase_of g)
    \<and> (phase_of g \<noteq> Idle \<longrightarrow> checkCanState g = g)
    \<and> (controls_isLocked (checkCanState g) \<and> phase_of (checkCanState g) = AwaitingReset
          \<and> isSlipperHeld (checkCanState g)
          \<and> js_lt (vec_z (player_position (checkCanState g))) FOUL_LINE_Z
        \<longrightarrow> \<not> timerRunning (zoneCheck (checkCanState g)))
    \<and> (timerRunning (run evs) \<and> d_le (d_sub (timerValue (run evs)) lit_0_1) (Dbl 0 0)
        \<longrightarrow> \<not> timerRunning (timerCallback (run evs))
          \<and> phase_of (timerCallback (run evs)) = Expired)
    \<and> \<not> timerRunning (resetGameComponents b (run evs))
    \<and> \<not> timerRunning (restartGame (run evs))"
proof -
  have inv: "session_inv (run evs)" by (rule session_inv_run)
  have invg: "session_inv g" unfolding assms by (intro session_inv_stepWorld inv)
  have invc: "session_inv (checkCanState g)" by (intro session_inv_checkCanState invg)
  have running: "timerRunning h \<longleftrightarrow> phase_of h = AwaitingReset" if "session_inv h" for h
    using that by (auto simp: session_inv_def timerRunning_def phase_of_def split: if_splits)
  have one: "length (intervals (run evs)) \<le> 1"
    using inv_intervals [OF inv] by (auto dest: arg_cong [where f = length])
  have idle_clear: "intervals g = []" if "phase_of g = Idle"
    using invg that by (auto simp: session_inv_def phase_of_def split: if_splits)
  have edge: "phase_of g = Idle \<and> \<not> isKnockedDown (game_can g) \<and> fst (checkState (game_can g))
        \<longrightarrow> intervals (checkCanState g) = [nextIntervalId g]
          \<and> timerValue (checkCanState g) = TIMER_DURATION
          \<and> phase_of (checkCanState g) = AwaitingReset"
    using idle_clear
    by (auto simp: checkCanState_def phase_of_def startTimer_def setInterval_def
        clearInterval_def truthy_def Let_def split: prod.splits option.splits if_splits)
  have no_edge: "\<not> (phase_of g = Idle \<and> \<not> isKnockedDown (game_can g)
          \<and> fst (checkState (game_can g)))
        \<longrightarrow> intervals (checkCanState g) = intervals g
          \<and> timerValue (checkCanState g) = timerValue g
          \<and> phase_of (checkCanState g) = phase_of g"
    by (auto simp: checkCanState_def phase_of_def Let_def split: prod.splits if_splits)
  have busy: "phase_of g \<noteq> Idle \<longrightarrow> checkCanState g = g"
    by (auto simp: checkCanState_def phase_of_def split: if_splits)
  have score: "controls_isLocked (checkCanState g) \<and> phase_of (checkCanState g) = AwaitingReset
          \<and> isSlipperHeld (checkCanState g)
          \<and> js_lt (vec_z (player_position (checkCanState g))) FOUL_LINE_Z
        \<longrightarrow> \<not> timerRunning (zoneCheck (checkCanState g))"
    using zoneCheck_scores(5) [OF invc]
    by (auto simp: timerRunning_def phase_of_def split: if_splits)
  have expiry: "timerRunning (run evs) \<and> d_le (d_sub (timerValue (run evs)) lit_0_1) (Dbl 0 0)
        \<longrightarrow> \<not> timerRunning (timerCallback (run evs))
          \<and> phase_of (timerCallback (run evs)) = Expired"
  proof
    assume a: "timerRunning (run evs) \<and> d_le (d_sub (timerValue (run evs)) lit_0_1) (Dbl 0 0)"
    have "session_inv (timerCallback (run evs))" by (intro session_inv_timerCallback inv)
    from running [OF this] have r: "timerRunning (timerCallback (run evs))
        \<longleftrightarrow> phase_of (timerCallback (run evs)) = AwaitingReset" .
    have "\<not> isGameOver (run evs)"
      using a running [OF inv] by (auto simp: phase_of_def split: if_splits)
    then have "isGameOver (timerCallback (run evs))"
      using a by (simp add: timerCallback_def triggerGameOver_def Let_def)
    then have "phase_of (timerCallback (run evs)) = Expired" by (simp add: phase_of_def)
    with r show "\<not> timerRunning (timerCallback (run evs))
          \<and> phase_of (timerCallback (run evs)) = Expired" by simp
  qed
  have resets: "\<not> timerRunning (resetGameComponents b (run evs))"
    "\<not> timerRunning (restartGame (run evs))"
  proof -
    have "session_inv (resetGameComponents b (run evs))"
      by (intro session_inv_resetGameComponents inv)
    from running [OF this] show "\<not> timerRunning (resetGameComponents b (run evs))"
      by (simp add: phase_of_def resetGameComponents_def Let_def)
    have "session_inv (restartGame (run evs))" by (intro session_inv_restartGame inv)
    from running [OF this] show "\<not> timerRunning (restartGame (run evs))"
      by (simp add: phase_of_def restartGame_def resetGameComponents_def Let_def)
  qed
  from running [OF inv] one edge no_edge busy score expiry resets show ?thesis
    by blast
qed

text \<open>
  The theorem at the initial state, after a knockdown, at the scoring frame and at the
  tick that ends the game.
\<close>

theorem timer_runs_iff_awaiting_reset_witness:
  "\<not> timerRunning (run []) \<and> phase_of (run []) = Idle
   \<and> timerRunning (run knockdownSession) \<and> phase_of (run knockdownSession) = AwaitingReset
   \<and> intervals (checkCanState (stepWorld (frameAt (- 180) fallenBody restingSlipper) (run [])))
       = [1]
   \<and> timerValue (checkCanState (stepWorld (frameAt (- 180) fallenBody restingSlipper) (run [])))
       = TIMER_DURATION
   \<and> intervals (checkCanState (stepWorld (frameAt (- 180) uprightBody restingSlipper) (run [])))
       = []
   \<and> checkCanState (stepWorld (frameAt (- 180) fallenBody restingSlipper) (run knockdownSession))
       = stepWorld (frameAt (- 180) fallenBody restingSlipper) (run knockdownSession)
   \<and> \<not> timerRunning (zoneCheck (checkCanState
         (stepWorld (frameAt (- 150) fallenBody restingSlipper) (run scoreSession))))
   \<and> \<not> timerRunning (timerCallback (run (knockdownSession @ replicate 150 (IntervalFire 1))))
   \<and> phase_of (timerCallback (run (knockdownSession @ replicate 150 (IntervalFire 1))))
       = Expired
   \<and> \<not> timerRunning (restartGame (run knockdownSession))"
proof -
  let ?fall = "frameAt (- 180) fallenBody restingSlipper"
  let ?up = "frameAt (- 180) uprightBody restingSlipper"
  let ?in = "frameAt (- 150) fallenBody restingSlipper"
  let ?late = "knockdownSession @ replicate 150 (IntervalFire 1)"
  have idle: "phase_of (run []) = Idle" "nextIntervalId (stepWorld ?fall (run [])) = 1"
    "phase_of (stepWorld ?fall (run [])) = Idle
      \<and> \<not> isKnockedDown (game_can (stepWorld ?fall (run [])))
      \<and> fst (checkState (game_can (stepWorld ?fall (run []))))"
    "\<not> (phase_of (stepWorld ?up (run [])) = Idle
      \<and> \<not> isKnockedDown (game_can (stepWorld ?up (run [])))
      \<and> fst (checkState (game_can (stepWorld ?up (run [])))))"
    "intervals (stepWorld ?up (run [])) = []"
    by (simp_all add: game_eval sample_eval)
  have busy: "phase_of (run knockdownSession) = AwaitingReset"
    "phase_of (stepWorld ?fall (run knockdownSession)) \<noteq> Idle"
    by (simp_all add: game_eval sample_eval)
  have score: "controls_isLocked (checkCanState (stepWorld ?in (run scoreSession)))
      \<and> phase_of (checkCanState (stepWorld ?in (run scoreSession))) = AwaitingReset
      \<and> isSlipperHeld (checkCanState (stepWorld ?in (run scoreSession)))
      \<and> js_lt (vec_z (player_position (checkCanState (stepWorld ?in (run scoreSession)))))
          FOUL_LINE_Z"
    by (simp add: game_eval sample_eval sqrt_9025_4)
  have late: "timerRunning (run ?late)
      \<and> d_le (d_sub (timerValue (run ?late)) lit_0_1) (Dbl 0 0)"
    using after_150_ticks
    by (simp add: timerRunning_def round53_def bit_length.simps lit_0_1_def Let_def)
  from timer_runs_iff_awaiting_reset [where fr = "?fall" and evs = "[]" and b = True, OF refl] idle
  have w1: "\<not> timerRunning (run [])"
    "intervals (checkCanState (stepWorld ?fall (run []))) = [1]"
    "timerValue (checkCanState (stepWorld ?fall (run []))) = TIMER_DURATION"
    by simp_all
  from timer_runs_iff_awaiting_reset [where fr = "?up" and evs = "[]" and b = True, OF refl] idle
  have w2: "intervals (checkCanState (stepWorld ?up (run []))) = []"
    by simp
  from timer_runs_iff_awaiting_reset [where fr = "?fall" and evs = "knockdownSession" and b = True, OF refl] busy
  have w3: "timerRunning (run knockdownSession)"
    "checkCanState (stepWorld ?fall (run knockdownSession))
      = stepWorld ?fall (run knockdownSession)"
    "\<not> timerRunning (restartGame (run knockdownSession))"
    by simp_all
  from timer_runs_iff_awaiting_reset [where fr = "?in" and evs = "scoreSession" and b = True, OF refl] score
  have w4: "\<not> timerRunning (zoneCheck (checkCanState (stepWorld ?in (run scoreSession))))"
    by simp
  from timer_runs_iff_awaiting_reset [where fr = "?fall" and evs = "?late" and b = True, OF refl] late
  have w5: "\<not> timerRunning (timerCallback (run ?late))"
    "phase_of (timerCallback (run ?late)) = Expired"
    by simp_all
  show ?thesis using idle(1) busy(1) w1 w2 w3 w4 w5 by simp
qed

end
